theory Spec2Isabelle
  imports Main "HOL-Library.Word"
begin

section \<open>The skykey manager of \<^verbatim>\<open>skykey/skykey.go\<close>\<close>

text \<open>
  A shallow embedding of the skykey package: the key entity and its identifier, the
  subkey derivation, the wire and text forms, the persist file and the manager with its
  two maps. Go slices are lists whose capacity equals their length, Go strings are
  \<^typ>\<open>string\<close> (a list of 8-bit characters), \<^verbatim>\<open>uint64\<close> is \<^typ>\<open>64 word\<close> and
  \<^verbatim>\<open>int\<close> has 64 bits. The mutex is not modelled: every operation holds it from entry
  to return, so the operations are atomic steps on the manager state.
\<close>

subsection \<open>Bytes, errors and constants\<close>

type_synonym byte = "8 word"

text \<open>
  Errors are values. \<^verbatim>\<open>errors.New\<close> and \<^verbatim>\<open>errors.AddContext\<close> are the two
  constructors the package uses itself; \<open>IOError\<close> stands for an error of the operating
  system, \<open>DecodeError\<close> for an error of the decoder, \<open>Base64Error\<close> for
  \<^verbatim>\<open>base64.CorruptInputError\<close>, \<open>CipherError\<close> for an error of
  \<^verbatim>\<open>crypto.NewSiaKey\<close>. \<open>SliceBoundsPanic\<close> is not an error the code returns: it is
  the run-time panic of a slice expression whose bound exceeds the capacity.
\<close>

datatype error =
    New string
  | AddContext error string
  | IOError
  | DecodeError
  | Base64Error
  | CipherError
  | SliceBoundsPanic

definition SkykeyIDLen :: nat where
  "SkykeyIDLen = 16"

definition MaxKeyNameLen :: nat where
  "MaxKeyNameLen = 128"

text \<open>
  Modelled from the spec: \<^verbatim>\<open>types.SpecifierLen\<close> and \<^verbatim>\<open>types.NewSpecifier\<close> are
  declared in another package of the repository. The spec: a specifier is a fixed-width 16-byte tag,
  ASCII, right-padded with NUL.
\<close>

definition SpecifierLen :: nat where
  "SpecifierLen = 16"

definition bytes_of :: "string \<Rightarrow> byte list" where
  "bytes_of s = map of_char s"

definition string_of :: "byte list \<Rightarrow> string" where
  "string_of bs = map (\<lambda>b. char_of (unat b)) bs"

definition NewSpecifier :: "string \<Rightarrow> byte list" where
  "NewSpecifier name = bytes_of name @ replicate (SpecifierLen - length name) 0"

definition headerLen :: nat where
  "headerLen = SpecifierLen + SpecifierLen + 8"

definition skykeyVersionString :: string where
  "skykeyVersionString = ''1.4.4''"

definition skykeyVersion :: "byte list" where
  "skykeyVersion = NewSpecifier skykeyVersionString"

definition SkykeySpecifier :: "byte list" where
  "SkykeySpecifier = NewSpecifier ''Skykey''"

definition SkykeyFileMagic :: "byte list" where
  "SkykeyFileMagic = NewSpecifier ''SkykeyFile''"

definition ErrSkykeyWithNameAlreadyExists :: error where
  "ErrSkykeyWithNameAlreadyExists = New ''Skykey name already used by another key.''"

definition ErrSkykeyWithIDAlreadyExists :: error where
  "ErrSkykeyWithIDAlreadyExists = New ''Skykey ID already exists.''"

definition errUnsupportedSkykeyCipherType :: error where
  "errUnsupportedSkykeyCipherType = New ''Unsupported Skykey ciphertype''"

definition errNoSkykeysWithThatName :: error where
  "errNoSkykeysWithThatName = New ''No Skykey with that name''"

definition errNoSkykeysWithThatID :: error where
  "errNoSkykeysWithThatID = New ''No Skykey is assocated with that ID''"

definition errSkykeyNameToolong :: error where
  "errSkykeyNameToolong = New ''Skykey name exceeds max length''"

lemmas error_defs =
  ErrSkykeyWithNameAlreadyExists_def ErrSkykeyWithIDAlreadyExists_def
  errUnsupportedSkykeyCipherType_def errNoSkykeysWithThatName_def
  errNoSkykeysWithThatID_def errSkykeyNameToolong_def

subsection \<open>Keys and their identifier\<close>

text \<open>
  Modelled from the spec: \<^verbatim>\<open>crypto.CipherType\<close>, \<^verbatim>\<open>crypto.TypeXChaCha20\<close> and the
  sizes \<^verbatim>\<open>chacha.KeySize\<close> and \<^verbatim>\<open>chacha.XNonceSize\<close> are declared in other
  packages. The spec: a cipher type is a fixed-width 16-byte specifier tag, the XChaCha20
  key has 32 bytes and its extended nonce 24. The tag of XChaCha20 is taken to be the
  specifier of its name; nothing below depends on the bytes chosen.
\<close>

type_synonym CipherType = "byte list"

definition CipherTypeLen :: nat where
  "CipherTypeLen = 16"

definition TypeXChaCha20 :: CipherType where
  "TypeXChaCha20 = NewSpecifier ''XChaCha20''"

definition KeySize :: nat where
  "KeySize = 32"

definition XNonceSize :: nat where
  "XNonceSize = 24"

type_synonym SkykeyID = "byte list"

record Skykey =
  Name :: string
  CipherType :: CipherType
  Entropy :: "byte list"

text \<open>
  \<^verbatim>\<open>crypto.HashAll\<close> is a collaborator outside the package: the hash is the parameter
  \<open>H\<close>, applied to the three objects \<^verbatim>\<open>ID\<close> hands it. The slice expression
  \<^verbatim>\<open>sk.Entropy[:chacha.KeySize]\<close> panics when the entropy is shorter than the key size.
\<close>

type_synonym hash = "byte list \<Rightarrow> CipherType \<Rightarrow> byte list \<Rightarrow> byte list"

definition ID :: "hash \<Rightarrow> Skykey \<Rightarrow> error + SkykeyID" where
  "ID H sk =
     (if CipherType sk = TypeXChaCha20 then
        (if length (Entropy sk) < KeySize then Inl SliceBoundsPanic
         else Inr (take SkykeyIDLen (H SkykeySpecifier (CipherType sk) (take KeySize (Entropy sk)))))
      else Inr (take SkykeyIDLen (H SkykeySpecifier (CipherType sk) (Entropy sk))))"

text \<open>
  \<^verbatim>\<open>SubkeyWithNonce\<close>: the validity check of \<^verbatim>\<open>crypto.NewSiaKey\<close> is the parameter
  \<open>NewSiaKey\<close>, true when the cipher accepts the entropy for the cipher type.
\<close>

type_synonym cipher_check = "CipherType \<Rightarrow> byte list \<Rightarrow> bool"

definition SubkeyWithNonce :: "cipher_check \<Rightarrow> Skykey \<Rightarrow> byte list \<Rightarrow> error + Skykey" where
  "SubkeyWithNonce NewSiaKey sk nonce =
     (if length nonce \<noteq> XNonceSize then Inl (New ''Incorrect nonce size'')
      else if length (Entropy sk) < KeySize then Inl SliceBoundsPanic
      else
        let entropy = take KeySize (Entropy sk) @ nonce in
        if \<not> NewSiaKey (CipherType sk) entropy
        then Inl (AddContext CipherError ''error creating new skykey subkey'')
        else Inr \<lparr>Name = Name sk, CipherType = CipherType sk, Entropy = entropy\<rparr>)"

subsection \<open>The wire form\<close>

text \<open>
  Modelled from the spec: \<^verbatim>\<open>encoding.Encoder\<close> and \<^verbatim>\<open>encoding.Decoder\<close> are
  declared in another package of the repository. The spec: the three fields are encoded
  in order; the name as an 8-byte little-endian unsigned length and that many bytes, the
  cipher type as a fixed-width 16-byte tag, the entropy as an 8-byte length and that many
  bytes. The spec gives the decoder no bound on the lengths it accepts, so the allocation
  limit that \<^verbatim>\<open>unmarshalSia\<close> hands to the decoder has no effect here. The decoder reads
  from a byte list and returns the bytes it has not consumed.
\<close>

fun le_bytes :: "nat \<Rightarrow> nat \<Rightarrow> byte list" where
  "le_bytes 0 n = []"
| "le_bytes (Suc k) n = of_nat (n mod 256) # le_bytes k (n div 256)"

fun le_nat :: "byte list \<Rightarrow> nat" where
  "le_nat [] = 0"
| "le_nat (b # bs) = unat b + 256 * le_nat bs"

definition EncUint64 :: "64 word \<Rightarrow> byte list" where
  "EncUint64 w = le_bytes 8 (unat w)"

definition DecUint64 :: "byte list \<Rightarrow> 64 word" where
  "DecUint64 bs = of_nat (le_nat bs)"

definition WritePrefixedBytes :: "byte list \<Rightarrow> byte list" where
  "WritePrefixedBytes bs = EncUint64 (of_nat (length bs)) @ bs"

definition ReadFull :: "nat \<Rightarrow> byte list \<Rightarrow> error + (byte list \<times> byte list)" where
  "ReadFull n bs = (if length bs < n then Inl DecodeError else Inr (take n bs, drop n bs))"

definition ReadPrefixedBytes :: "byte list \<Rightarrow> error + (byte list \<times> byte list)" where
  "ReadPrefixedBytes bs =
     (case ReadFull 8 bs of
        Inl e \<Rightarrow> Inl e
      | Inr (p, r) \<Rightarrow> ReadFull (unat (DecUint64 p)) r)"

definition marshalSia :: "Skykey \<Rightarrow> byte list" where
  "marshalSia sk =
     WritePrefixedBytes (bytes_of (Name sk)) @ CipherType sk @ WritePrefixedBytes (Entropy sk)"

definition unmarshalSia :: "byte list \<Rightarrow> error + (Skykey \<times> byte list)" where
  "unmarshalSia bs =
     (case ReadPrefixedBytes bs of
        Inl e \<Rightarrow> Inl e
      | Inr (name, r1) \<Rightarrow>
          (case ReadFull CipherTypeLen r1 of
             Inl e \<Rightarrow> Inl e
           | Inr (ct, r2) \<Rightarrow>
               (case ReadPrefixedBytes r2 of
                  Inl e \<Rightarrow> Inl e
                | Inr (entropy, r3) \<Rightarrow>
                    Inr (\<lparr>Name = string_of name, CipherType = ct, Entropy = entropy\<rparr>, r3))))"

subsection \<open>The text form\<close>

text \<open>
  \<^verbatim>\<open>base64.URLEncoding\<close> of Go's standard library: the URL-safe alphabet, padded with
  \<open>=\<close>. The encoder turns three bytes into four characters. The decoder skips carriage
  returns and line feeds, takes four characters at a time, accepts padding only in the
  last two places of the last group, and is not strict about the unused bits of the last
  character.
\<close>

definition encodeURL :: string where
  "encodeURL = ''ABCDEFGHIJKLMNOPQRSTUVWXYZabcdefghijklmnopqrstuvwxyz0123456789-_''"

definition enc64 :: "nat \<Rightarrow> char" where
  "enc64 i = encodeURL ! i"

definition dec64 :: "char \<Rightarrow> nat option" where
  "dec64 c = map_of (zip encodeURL [0..<64]) c"

fun EncodeToString :: "byte list \<Rightarrow> string" where
  "EncodeToString [] = []"
| "EncodeToString [a] =
     [enc64 (unat a div 4), enc64 (unat a mod 4 * 16), CHR ''='', CHR ''='']"
| "EncodeToString [a, b] =
     [enc64 (unat a div 4), enc64 (unat a mod 4 * 16 + unat b div 16),
      enc64 (unat b mod 16 * 4), CHR ''='']"
| "EncodeToString (a # b # c # bs) =
     [enc64 (unat a div 4), enc64 (unat a mod 4 * 16 + unat b div 16),
      enc64 (unat b mod 16 * 4 + unat c div 64), enc64 (unat c mod 64)] @ EncodeToString bs"

definition dec_quantum :: "char \<Rightarrow> char \<Rightarrow> char \<Rightarrow> char \<Rightarrow> byte list option" where
  "dec_quantum c1 c2 c3 c4 =
     (case (dec64 c1, dec64 c2, dec64 c3, dec64 c4) of
        (Some s1, Some s2, Some s3, Some s4) \<Rightarrow>
          Some [of_nat (s1 * 4 + s2 div 16), of_nat (s2 mod 16 * 16 + s3 div 4),
                of_nat (s3 mod 4 * 64 + s4)]
      | _ \<Rightarrow> None)"

definition dec_last :: "char \<Rightarrow> char \<Rightarrow> char \<Rightarrow> char \<Rightarrow> byte list option" where
  "dec_last c1 c2 c3 c4 =
     (if c3 = CHR ''='' \<and> c4 = CHR ''='' then
        (case (dec64 c1, dec64 c2) of
           (Some s1, Some s2) \<Rightarrow> Some [of_nat (s1 * 4 + s2 div 16)]
         | _ \<Rightarrow> None)
      else if c4 = CHR ''='' then
        (case (dec64 c1, dec64 c2, dec64 c3) of
           (Some s1, Some s2, Some s3) \<Rightarrow>
             Some [of_nat (s1 * 4 + s2 div 16), of_nat (s2 mod 16 * 16 + s3 div 4)]
         | _ \<Rightarrow> None)
      else dec_quantum c1 c2 c3 c4)"

fun decode_quanta :: "string \<Rightarrow> byte list option" where
  "decode_quanta [] = Some []"
| "decode_quanta [c1, c2, c3, c4] = dec_last c1 c2 c3 c4"
| "decode_quanta (c1 # c2 # c3 # c4 # cs) =
     (case dec_quantum c1 c2 c3 c4 of
        None \<Rightarrow> None
      | Some bs \<Rightarrow> (case decode_quanta cs of None \<Rightarrow> None | Some r \<Rightarrow> Some (bs @ r)))"
| "decode_quanta cs = None"

definition DecodeString :: "string \<Rightarrow> error + byte list" where
  "DecodeString s =
     (case decode_quanta (filter (\<lambda>c. c \<noteq> CHR 0x0D \<and> c \<noteq> CHR 0x0A) s) of
        None \<Rightarrow> Inl Base64Error
      | Some bs \<Rightarrow> Inr bs)"

text \<open>
  \<^verbatim>\<open>ToString\<close> marshals into a buffer, which never fails, so its error is always nil.
  \<^verbatim>\<open>FromString\<close> decodes into the key it is called on; the model returns the key
  decoded. Bytes after the entropy are not looked at.
\<close>

definition ToString :: "Skykey \<Rightarrow> string" where
  "ToString sk = EncodeToString (marshalSia sk)"

definition FromString :: "string \<Rightarrow> error + Skykey" where
  "FromString s =
     (case DecodeString s of
        Inl err \<Rightarrow> Inl err
      | Inr keyBytes \<Rightarrow>
          (case unmarshalSia keyBytes of
             Inl err \<Rightarrow> Inl err
           | Inr (sk, rest) \<Rightarrow> Inr sk))"

subsection \<open>The manager and the persist file\<close>

text \<open>
  The manager's state is its two maps, the version and the file length. The persist file
  is the list of its bytes. A write at an offset replaces the bytes there and extends the
  file when it ends beyond it.
\<close>

record SkykeyManager =
  idsByName :: "string \<rightharpoonup> SkykeyID"
  keysByID :: "SkykeyID \<rightharpoonup> Skykey"
  version :: "byte list"
  fileLen :: "64 word"

type_synonym file_bytes = "byte list"

definition WriteAt :: "file_bytes \<Rightarrow> nat \<Rightarrow> byte list \<Rightarrow> file_bytes" where
  "WriteAt f off bs = take off f @ replicate (off - length f) 0 @ bs @ drop (off + length bs) f"

text \<open>
  The operating system decides whether a step on the file fails. \<open>io_fault\<close> names the
  step of an operation that fails, if any: creating the directory, opening the file, its
  \<^verbatim>\<open>Stat\<close>, the read of the header, the seek to the records, the query of the offset
  after the record of the given index, the write of a record, its sync, and the three
  steps of \<^verbatim>\<open>saveHeader\<close>. A write that fails has written the given number of bytes.
\<close>

datatype io_fault =
    NoFault
  | MkdirFault
  | OpenFault
  | StatFault
  | ReadFault
  | SeekFault
  | OffsetFault nat
  | WriteFault nat
  | SyncFault
  | HeaderSeekFault
  | HeaderWriteFault nat
  | HeaderSyncFault

definition saveHeader :: "SkykeyManager \<Rightarrow> file_bytes \<Rightarrow> io_fault \<Rightarrow> error option \<times> file_bytes" where
  "saveHeader sm f flt =
     (if flt = HeaderSeekFault then (Some (AddContext IOError ''Unable to save skykey header''), f)
      else
        let hdr = SkykeyFileMagic @ version sm @ EncUint64 (fileLen sm) in
        (case flt of
           HeaderWriteFault k \<Rightarrow>
             (Some (AddContext IOError ''Error encoding skykey file header''), WriteAt f 0 (take k hdr))
         | HeaderSyncFault \<Rightarrow> (Some IOError, WriteAt f 0 hdr)
         | _ \<Rightarrow> (None, WriteAt f 0 hdr)))"

text \<open>
  \<^verbatim>\<open>saveKey\<close> stores the key in both maps first and then appends it to the file. Every
  early return hands back the manager as it is at that point. The seek fails when the
  file length, read as \<^verbatim>\<open>int64\<close>, is negative.
\<close>

definition saveKey ::
  "hash \<Rightarrow> Skykey \<Rightarrow> SkykeyManager \<Rightarrow> file_bytes \<Rightarrow> io_fault \<Rightarrow> error option \<times> SkykeyManager \<times> file_bytes" where
  "saveKey H skykey sm f flt =
     (case ID H skykey of
        Inl p \<Rightarrow> (Some p, sm, f)
      | Inr keyID \<Rightarrow>
          let sm1 = sm\<lparr>idsByName := (idsByName sm)(Name skykey \<mapsto> keyID),
                       keysByID := (keysByID sm)(keyID \<mapsto> skykey)\<rparr> in
          if flt = OpenFault
          then (Some (AddContext IOError ''Unable to open SkykeyManager persist file''), sm1, f)
          else if flt = SeekFault \<or> sint (fileLen sm1) < 0 then (Some IOError, sm1, f)
          else
            let wire = marshalSia skykey; off = unat (fileLen sm1) in
            (case flt of
               WriteFault k \<Rightarrow>
                 (Some (AddContext IOError ''Error writing skykey to file''), sm1,
                  WriteAt f off (take k wire))
             | SyncFault \<Rightarrow> (Some IOError, sm1, WriteAt f off wire)
             | _ \<Rightarrow>
                 let sm2 = sm1\<lparr>fileLen := fileLen sm1 + of_nat (length wire)\<rparr>;
                     (err, f') = saveHeader sm2 (WriteAt f off wire) flt
                 in (err, sm2, f')))"

definition SupportsCipherType :: "CipherType \<Rightarrow> bool" where
  "SupportsCipherType ct = (ct = TypeXChaCha20)"

text \<open>
  \<^verbatim>\<open>CreateKey\<close>: the entropy that \<^verbatim>\<open>crypto.GenerateSiaKey\<close> draws is the parameter
  \<open>fresh\<close>.
\<close>

definition CreateKey ::
  "hash \<Rightarrow> byte list \<Rightarrow> string \<Rightarrow> CipherType \<Rightarrow> SkykeyManager \<Rightarrow> file_bytes \<Rightarrow> io_fault
     \<Rightarrow> (error + Skykey) \<times> SkykeyManager \<times> file_bytes" where
  "CreateKey H fresh name cipherType sm f flt =
     (if length name > MaxKeyNameLen then (Inl errSkykeyNameToolong, sm, f)
      else if \<not> SupportsCipherType cipherType then (Inl errUnsupportedSkykeyCipherType, sm, f)
      else if idsByName sm name \<noteq> None then (Inl ErrSkykeyWithNameAlreadyExists, sm, f)
      else
        let skykey = \<lparr>Name = name, CipherType = cipherType, Entropy = fresh\<rparr> in
        (case saveKey H skykey sm f flt of
           (Some err, sm', f') \<Rightarrow> (Inl err, sm', f')
         | (None, sm', f') \<Rightarrow> (Inr skykey, sm', f')))"

definition AddKey ::
  "hash \<Rightarrow> Skykey \<Rightarrow> SkykeyManager \<Rightarrow> file_bytes \<Rightarrow> io_fault \<Rightarrow> error option \<times> SkykeyManager \<times> file_bytes" where
  "AddKey H sk sm f flt =
     (case ID H sk of
        Inl p \<Rightarrow> (Some p, sm, f)
      | Inr keyID \<Rightarrow>
          if keysByID sm keyID \<noteq> None then (Some ErrSkykeyWithIDAlreadyExists, sm, f)
          else if idsByName sm (Name sk) \<noteq> None then (Some ErrSkykeyWithNameAlreadyExists, sm, f)
          else saveKey H sk sm f flt)"

definition IDByName :: "SkykeyManager \<Rightarrow> string \<Rightarrow> error + SkykeyID" where
  "IDByName sm name =
     (case idsByName sm name of None \<Rightarrow> Inl errNoSkykeysWithThatName | Some keyID \<Rightarrow> Inr keyID)"

definition KeyByName :: "SkykeyManager \<Rightarrow> string \<Rightarrow> error + Skykey" where
  "KeyByName sm name =
     (case idsByName sm name of
        None \<Rightarrow> Inl errNoSkykeysWithThatName
      | Some keyID \<Rightarrow>
          (case keysByID sm keyID of
             None \<Rightarrow> Inl errNoSkykeysWithThatID
           | Some key \<Rightarrow> Inr key))"

definition KeyByID :: "SkykeyManager \<Rightarrow> SkykeyID \<Rightarrow> error + Skykey" where
  "KeyByID sm keyID =
     (case keysByID sm keyID of None \<Rightarrow> Inl errNoSkykeysWithThatID | Some key \<Rightarrow> Inr key)"

text \<open>
  \<^verbatim>\<open>build.IsVersion\<close>, \<^verbatim>\<open>build.VersionCmp\<close> and the \<^verbatim>\<open>MarshalText\<close> of a specifier
  are collaborators outside the package: they are the fields of the parameter \<open>lib\<close>.
\<close>

record version_lib =
  IsVersion :: "string \<Rightarrow> bool"
  VersionCmp :: "string \<Rightarrow> string \<Rightarrow> int"
  MarshalText :: "byte list \<Rightarrow> error + string"

text \<open>
  \<^verbatim>\<open>loadHeader\<close> reads the first \<open>headerLen\<close> bytes and decodes the magic, the version
  and the file length from them. A magic that cannot be decoded stays zero and is
  refused as a wrong magic. \<^verbatim>\<open>strings.ReplaceAll\<close> removes every NUL of the version text.
\<close>

definition loadHeader ::
  "version_lib \<Rightarrow> SkykeyManager \<Rightarrow> file_bytes \<Rightarrow> io_fault \<Rightarrow> error + SkykeyManager" where
  "loadHeader lib sm f flt =
     (if flt = ReadFault then Inl (AddContext IOError ''Error reading Skykey file metadata'')
      else
        (case ReadFull SpecifierLen (take headerLen f) of
           Inl e \<Rightarrow> Inl (New ''Expected skykey file magic'')
         | Inr (magic, r1) \<Rightarrow>
             if magic \<noteq> SkykeyFileMagic then Inl (New ''Expected skykey file magic'')
             else
               (case ReadFull SpecifierLen r1 of
                  Inl e \<Rightarrow> Inl (AddContext e ''Error decoding skykey file version'')
                | Inr (ver, r2) \<Rightarrow>
                    (case MarshalText lib ver of
                       Inl e \<Rightarrow> Inl e
                     | Inr versionBytes \<Rightarrow>
                         let version = filter (\<lambda>c. c \<noteq> CHR 0x00) versionBytes in
                         if \<not> IsVersion lib version
                         then Inl (New ''skykey file header missing version'')
                         else if VersionCmp lib skykeyVersionString version < 0
                         then Inl (New ''Unknown skykey version'')
                         else
                           (case ReadFull 8 r2 of
                              Inl e \<Rightarrow> Inl e
                            | Inr (lenBytes, r3) \<Rightarrow>
                                Inr (sm\<lparr>version := ver, fileLen := DecUint64 lenBytes\<rparr>))))))"

text \<open>
  The loop of \<^verbatim>\<open>load\<close>: \<open>n\<close> is the offset in the file, compared with the file length
  read as \<^verbatim>\<open>int\<close>. A record is decoded from the bytes at the offset; the new offset is
  where the decoder stopped. \<open>i\<close> counts the records read, for the fault.
\<close>

function loadKeys ::
  "hash \<Rightarrow> io_fault \<Rightarrow> file_bytes \<Rightarrow> nat \<Rightarrow> SkykeyManager \<Rightarrow> nat \<Rightarrow> error + SkykeyManager" where
  "loadKeys H flt f i sm n =
     (if int n < sint (fileLen sm) then
        (case unmarshalSia (drop n f) of
           Inl e \<Rightarrow> Inl (AddContext e ''Error unmarshaling Skykey'')
         | Inr (sk, rest) \<Rightarrow>
             (case ID H sk of
                Inl p \<Rightarrow> Inl p
              | Inr keyID \<Rightarrow>
                  if flt = OffsetFault i
                  then Inl (AddContext IOError ''Error getting skykey file offset'')
                  else
                    loadKeys H flt f (Suc i)
                      (sm\<lparr>idsByName := (idsByName sm)(Name sk \<mapsto> keyID),
                          keysByID := (keysByID sm)(keyID \<mapsto> sk)\<rparr>)
                      (length f - length rest)))
      else if int n \<noteq> sint (fileLen sm)
      then Inl (New ''Expected to read entire specified skykey file length'')
      else Inr sm)"
  by pat_completeness auto
termination
proof (relation "measure (\<lambda>(H, flt, f, i, sm, n). length f - n)")
  show "wf (measure (\<lambda>(H, flt, f, i, sm, n). length f - n))"
    by simp
next
  fix H :: hash and flt :: io_fault and f :: file_bytes and i :: nat and sm :: SkykeyManager
    and n :: nat and x2 :: "Skykey \<times> byte list" and sk :: Skykey and rest :: "byte list"
    and keyID :: SkykeyID
  assume dec: "unmarshalSia (drop n f) = Inr x2" and x2: "(sk, rest) = x2"
  from dec x2 have "length rest < length (drop n f)"
    by (auto simp: unmarshalSia_def ReadPrefixedBytes_def ReadFull_def CipherTypeLen_def
        split: sum.splits prod.splits if_splits)
  then show "((H, flt, f, Suc i,
        sm\<lparr>idsByName := (idsByName sm)(Name sk \<mapsto> keyID),
            keysByID := (keysByID sm)(keyID \<mapsto> sk)\<rparr>,
        length f - length rest),
      (H, flt, f, i, sm, n)) \<in> measure (\<lambda>(H, flt, f, i, sm, n). length f - n)"
    by simp
qed

declare loadKeys.simps [simp del]

text \<open>
  \<^verbatim>\<open>load\<close> opens the file, creating it when it is missing: a missing file is the empty
  list. It returns the manager only when it returns no error, as \<^verbatim>\<open>NewSkykeyManager\<close>
  does.
\<close>

definition load ::
  "hash \<Rightarrow> version_lib \<Rightarrow> SkykeyManager \<Rightarrow> file_bytes \<Rightarrow> io_fault
     \<Rightarrow> (error + SkykeyManager) \<times> file_bytes" where
  "load H lib sm f flt =
     (if flt = OpenFault
      then (Inl (AddContext IOError ''Unable to open SkykeyManager persist file''), f)
      else if flt = StatFault then (Inl IOError, f)
      else if length f < headerLen then
        let sm1 = sm\<lparr>version := skykeyVersion, fileLen := of_nat headerLen\<rparr> in
        (case saveHeader sm1 f flt of
           (Some err, f') \<Rightarrow> (Inl err, f')
         | (None, f') \<Rightarrow> (Inr sm1, f'))
      else
        (case loadHeader lib sm f flt of
           Inl err \<Rightarrow> (Inl (AddContext err ''Error loading header''), f)
         | Inr sm1 \<Rightarrow>
             if flt = SeekFault then (Inl IOError, f)
             else (loadKeys H flt f 0 sm1 headerLen, f)))"

definition initialManager :: SkykeyManager where
  "initialManager =
     \<lparr>idsByName = Map.empty, keysByID = Map.empty, version = replicate SpecifierLen 0,
        fileLen = 0\<rparr>"

definition NewSkykeyManager ::
  "hash \<Rightarrow> version_lib \<Rightarrow> file_bytes \<Rightarrow> io_fault \<Rightarrow> (error + SkykeyManager) \<times> file_bytes" where
  "NewSkykeyManager H lib f flt =
     (if flt = MkdirFault then (Inl IOError, f) else load H lib initialManager f flt)"

subsection \<open>Notions of the claims\<close>

text \<open>
  The manager states that a program can hold: the one \<^verbatim>\<open>NewSkykeyManager\<close> returns,
  and the state after any call of \<^verbatim>\<open>CreateKey\<close> or \<^verbatim>\<open>AddKey\<close>, whatever the call
  returns, on whatever the file holds then.
\<close>

inductive reachable :: "hash \<Rightarrow> version_lib \<Rightarrow> SkykeyManager \<Rightarrow> bool" for H lib where
  reach_load: "fst (NewSkykeyManager H lib f flt) = Inr sm \<Longrightarrow> reachable H lib sm"
| reach_CreateKey:
    "reachable H lib sm \<Longrightarrow> reachable H lib (fst (snd (CreateKey H fresh name ct sm f flt)))"
| reach_AddKey:
    "reachable H lib sm \<Longrightarrow> reachable H lib (fst (snd (AddKey H sk sm f flt)))"

definition ids_have_keys :: "SkykeyManager \<Rightarrow> bool" where
  "ids_have_keys sm = (ran (idsByName sm) \<subseteq> dom (keysByID sm))"

text \<open>
  A key fits the wire form when its cipher type has the fixed width and its lengths fit
  the 8-byte prefix, as every Go value does. \<open>storeKeys\<close> is the manager after the loop
  of \<^verbatim>\<open>load\<close> has stored the given keys in turn.
\<close>

definition wire_ok :: "Skykey \<Rightarrow> bool" where
  "wire_ok k =
     (length (CipherType k) = CipherTypeLen \<and> length (Name k) < 2 ^ 64 \<and>
      length (Entropy k) < 2 ^ 64)"

fun storeKeys :: "hash \<Rightarrow> SkykeyManager \<Rightarrow> Skykey list \<Rightarrow> SkykeyManager" where
  "storeKeys H sm [] = sm"
| "storeKeys H sm (k # ks) =
     (case ID H k of
        Inl p \<Rightarrow> sm
      | Inr keyID \<Rightarrow>
          storeKeys H
            (sm\<lparr>idsByName := (idsByName sm)(Name k \<mapsto> keyID),
                keysByID := (keysByID sm)(keyID \<mapsto> k)\<rparr>) ks)"

subsection \<open>Concrete inputs\<close>

text \<open>
  Values at which the operations are evaluated below. \<open>exampleHash\<close> stands in for the
  hash: it returns 32 bytes, beginning with the reversed third object. \<open>acceptAll\<close>
  stands in for a cipher check that accepts the entropy. \<open>freshManager\<close> and
  \<open>freshFile\<close> are the manager and the persist file after a load on an empty directory.
\<close>

definition exampleHash :: hash where
  "exampleHash s c e = take 32 (rev e @ c @ s)"

text \<open>
  \<open>exampleLib\<close> stands in for the version functions: a version is a list of decimal
  numbers separated by dots, compared number by number and then by length; the text of a
  specifier is its bytes.
\<close>

fun splitDots :: "string \<Rightarrow> string list" where
  "splitDots [] = [[]]"
| "splitDots (c # cs) =
     (if c = CHR ''.'' then [] # splitDots cs
      else (case splitDots cs of [] \<Rightarrow> [[c]] | p # ps \<Rightarrow> (c # p) # ps))"

definition digit :: "char \<Rightarrow> nat option" where
  "digit c = map_of (zip ''0123456789'' [0..<10]) c"

fun atoi :: "nat \<Rightarrow> string \<Rightarrow> nat option" where
  "atoi acc [] = Some acc"
| "atoi acc (c # cs) = (case digit c of None \<Rightarrow> None | Some d \<Rightarrow> atoi (10 * acc + d) cs)"

definition number :: "string \<Rightarrow> nat option" where
  "number s = (if s = [] then None else atoi 0 s)"

fun cmpNumbers :: "nat list \<Rightarrow> nat list \<Rightarrow> int" where
  "cmpNumbers [] [] = 0"
| "cmpNumbers [] (b # bs) = - 1"
| "cmpNumbers (a # as) [] = 1"
| "cmpNumbers (a # as) (b # bs) =
     (if a < b then - 1 else if b < a then 1 else cmpNumbers as bs)"

definition numbers :: "string \<Rightarrow> nat list" where
  "numbers s = map (\<lambda>p. case number p of None \<Rightarrow> 0 | Some x \<Rightarrow> x) (splitDots s)"

definition exampleLib :: version_lib where
  "exampleLib =
     \<lparr>IsVersion = (\<lambda>s. list_all (\<lambda>p. number p \<noteq> None) (splitDots s)),
      VersionCmp = (\<lambda>a b. cmpNumbers (numbers a) (numbers b)),
      MarshalText = (\<lambda>bs. Inr (string_of bs))\<rparr>"

definition acceptAll :: cipher_check where
  "acceptAll ct entropy = True"

definition headerFile :: "string \<Rightarrow> nat \<Rightarrow> file_bytes" where
  "headerFile v n = SkykeyFileMagic @ NewSpecifier v @ EncUint64 (of_nat n)"

definition freshManager :: SkykeyManager where
  "freshManager = \<lparr>idsByName = Map.empty, keysByID = Map.empty, version = skykeyVersion,
     fileLen = of_nat headerLen\<rparr>"

definition freshFile :: file_bytes where
  "freshFile = SkykeyFileMagic @ skykeyVersion @ EncUint64 (of_nat headerLen)"

definition exampleEntropy :: "byte list" where
  "exampleEntropy = replicate 32 1 @ replicate 24 0"

definition exampleKey :: Skykey where
  "exampleKey = \<lparr>Name = ''alpha'', CipherType = TypeXChaCha20, Entropy = exampleEntropy\<rparr>"

definition alphaManager :: SkykeyManager where
  "alphaManager = fst (snd (AddKey exampleHash exampleKey freshManager freshFile NoFault))"

definition betaKey :: Skykey where
  "betaKey = \<lparr>Name = ''alpha'', CipherType = TypeXChaCha20, Entropy = replicate 32 2 @ replicate 24 0\<rparr>"

definition plainKey :: Skykey where
  "plainKey = \<lparr>Name = ''plain'', CipherType = NewSpecifier ''plain'', Entropy = exampleEntropy\<rparr>"

definition longKey :: Skykey where
  "longKey = \<lparr>Name = replicate 129 CHR ''a'', CipherType = TypeXChaCha20, Entropy = exampleEntropy\<rparr>"

section \<open>Properties\<close>

subsection \<open>Saving a key\<close>

lemma ID_Inl: "ID H sk = Inl p \<Longrightarrow> p = SliceBoundsPanic"
  by (auto simp: ID_def split: if_splits)

lemma saveKey_not_New: "fst (saveKey H sk sm f flt) \<noteq> Some (New msg)"
  by (auto simp: saveKey_def saveHeader_def Let_def dest!: ID_Inl split: sum.splits io_fault.splits prod.splits)

lemma saveKey_maps:
  "ID H sk = Inr keyID \<Longrightarrow> saveKey H sk sm f flt = (r, sm', f') \<Longrightarrow>
     idsByName sm' = (idsByName sm)(Name sk \<mapsto> keyID) \<and> keysByID sm' = (keysByID sm)(keyID \<mapsto> sk)"
  by (auto simp: saveKey_def saveHeader_def Let_def split: sum.splits io_fault.splits prod.splits if_splits)

lemma saveKey_idsByName:
  "ID H sk = Inr keyID \<Longrightarrow>
     idsByName (fst (snd (saveKey H sk sm f flt))) = (idsByName sm)(Name sk \<mapsto> keyID)"
  using saveKey_maps [of H sk keyID sm f flt] by (cases "saveKey H sk sm f flt") simp

lemma saveKey_keysByID:
  "ID H sk = Inr keyID \<Longrightarrow>
     keysByID (fst (snd (saveKey H sk sm f flt))) = (keysByID sm)(keyID \<mapsto> sk)"
  using saveKey_maps [of H sk keyID sm f flt] by (cases "saveKey H sk sm f flt") simp

lemma AddKey_fresh:
  "ID H sk = Inr keyID \<Longrightarrow> keysByID sm keyID = None \<Longrightarrow> idsByName sm (Name sk) = None \<Longrightarrow>
     AddKey H sk sm f flt = saveKey H sk sm f flt"
  by (simp add: AddKey_def)

lemma saveKey_panic:
  "ID H sk = Inl p \<Longrightarrow> saveKey H sk sm f flt = (Some p, sm, f)"
  by (simp add: saveKey_def)

lemma saveKey_NoFault:
  "ID H sk = Inr keyID \<Longrightarrow> 0 \<le> sint (fileLen sm) \<Longrightarrow> fst (saveKey H sk sm f NoFault) = None"
  by (auto simp: saveKey_def saveHeader_def Let_def split: sum.splits io_fault.splits prod.splits if_splits)

lemma CreateKey_too_long:
  "length name > MaxKeyNameLen \<Longrightarrow>
     CreateKey H fresh name ct sm f flt = (Inl errSkykeyNameToolong, sm, f)"
  by (simp add: CreateKey_def)

lemma CreateKey_unsupported:
  "length name \<le> MaxKeyNameLen \<Longrightarrow> ct \<noteq> TypeXChaCha20 \<Longrightarrow>
     CreateKey H fresh name ct sm f flt = (Inl errUnsupportedSkykeyCipherType, sm, f)"
  by (simp add: CreateKey_def SupportsCipherType_def)

lemma CreateKey_name_exists:
  "length name \<le> MaxKeyNameLen \<Longrightarrow> ct = TypeXChaCha20 \<Longrightarrow> idsByName sm name \<noteq> None \<Longrightarrow>
     CreateKey H fresh name ct sm f flt = (Inl ErrSkykeyWithNameAlreadyExists, sm, f)"
  by (simp add: CreateKey_def SupportsCipherType_def)

lemma CreateKey_cases:
  "CreateKey H fresh name ct sm f flt = (Inl errSkykeyNameToolong, sm, f) \<or>
   CreateKey H fresh name ct sm f flt = (Inl errUnsupportedSkykeyCipherType, sm, f) \<or>
   CreateKey H fresh name ct sm f flt = (Inl ErrSkykeyWithNameAlreadyExists, sm, f) \<or>
   CreateKey H fresh name ct sm f flt =
       (case saveKey H \<lparr>Name = name, CipherType = ct, Entropy = fresh\<rparr> sm f flt of
          (Some err, sm', f') \<Rightarrow> (Inl err, sm', f')
        | (None, sm', f') \<Rightarrow> (Inr \<lparr>Name = name, CipherType = ct, Entropy = fresh\<rparr>, sm', f'))"
  by (simp add: CreateKey_def Let_def)

lemma CreateKey_saved_state:
  "CreateKey H fresh name ct sm f flt =
       (case saveKey H sk sm f flt of
          (Some err, sm', f') \<Rightarrow> (Inl err, sm', f')
        | (None, sm', f') \<Rightarrow> (Inr sk, sm', f')) \<Longrightarrow>
   snd (CreateKey H fresh name ct sm f flt) = snd (saveKey H sk sm f flt) \<and>
   (\<forall>e. fst (CreateKey H fresh name ct sm f flt) = Inl e \<longrightarrow> fst (saveKey H sk sm f flt) = Some e)"
  by (auto split: prod.splits option.splits)

lemma AddKey_ID_exists:
  "ID H sk = Inr keyID \<Longrightarrow> keysByID sm keyID \<noteq> None \<Longrightarrow>
     AddKey H sk sm f flt = (Some ErrSkykeyWithIDAlreadyExists, sm, f)"
  by (simp add: AddKey_def)

lemma AddKey_name_exists:
  "ID H sk = Inr keyID \<Longrightarrow> keysByID sm keyID = None \<Longrightarrow> idsByName sm (Name sk) \<noteq> None \<Longrightarrow>
     AddKey H sk sm f flt = (Some ErrSkykeyWithNameAlreadyExists, sm, f)"
  by (simp add: AddKey_def)

lemma AddKey_cases:
  "AddKey H sk sm f flt = (Some SliceBoundsPanic, sm, f) \<or>
   AddKey H sk sm f flt = (Some ErrSkykeyWithIDAlreadyExists, sm, f) \<or>
   AddKey H sk sm f flt = (Some ErrSkykeyWithNameAlreadyExists, sm, f) \<or>
   AddKey H sk sm f flt = saveKey H sk sm f flt"
  by (auto simp: AddKey_def dest: ID_Inl split: sum.splits)

subsection \<open>The wire form and the text form\<close>

lemma length_le_bytes: "length (le_bytes k n) = k"
  by (induction k arbitrary: n) simp_all

lemma le_nat_le_bytes: "le_nat (le_bytes k n) = n mod 256 ^ k"
proof (induction k arbitrary: n)
  case 0
  then show ?case by simp
next
  case (Suc k)
  have "unat (of_nat (n mod 256) :: byte) = n mod 256"
    by (simp add: unat_of_nat)
  then show ?case
    by (simp add: Suc mod_mult2_eq)
qed

lemma le_nat_bound: "le_nat bs < 256 ^ length bs"
proof (induction bs)
  case Nil
  then show ?case by simp
next
  case (Cons b bs)
  have "unat b < 256" using unsigned_less [of b, where ?'a = nat] by simp
  with Cons show ?case by simp
qed

lemma le_bytes_le_nat: "le_bytes (length bs) (le_nat bs) = bs"
proof (induction bs)
  case Nil
  then show ?case by simp
next
  case (Cons b bs)
  have b: "unat b < 256" using unsigned_less [of b, where ?'a = nat] by simp
  then have "(unat b + 256 * le_nat bs) mod 256 = unat b"
    and "(unat b + 256 * le_nat bs) div 256 = le_nat bs"
    by simp_all
  with Cons show ?case by simp
qed

lemma DecUint64_EncUint64: "DecUint64 (EncUint64 w) = w"
proof -
  have "unat w < 256 ^ 8" using unsigned_less [of w, where ?'a = nat] by simp
  then show ?thesis by (simp add: DecUint64_def EncUint64_def le_nat_le_bytes)
qed

lemma length_EncUint64: "length (EncUint64 w) = 8"
  by (simp add: EncUint64_def length_le_bytes)

lemma EncUint64_DecUint64: "length bs = 8 \<Longrightarrow> EncUint64 (DecUint64 bs) = bs"
proof -
  assume l: "length bs = 8"
  have "le_nat bs < 2 ^ 64" using le_nat_bound [of bs] l by simp
  then have "unat (of_nat (le_nat bs) :: 64 word) = le_nat bs"
    by (simp add: unat_of_nat)
  then show ?thesis using le_bytes_le_nat [of bs] l
    by (simp add: EncUint64_def DecUint64_def)
qed

lemma ReadFull_append: "length a = n \<Longrightarrow> ReadFull n (a @ rest) = Inr (a, rest)"
  by (simp add: ReadFull_def)

lemma ReadFull_Inr: "ReadFull n bs = Inr (a, rest) \<Longrightarrow> bs = a @ rest \<and> length a = n"
  by (auto simp: ReadFull_def split: if_splits)

lemma ReadPrefixedBytes_Write:
  assumes "length bs < 2 ^ 64"
  shows "ReadPrefixedBytes (WritePrefixedBytes bs @ rest) = Inr (bs, rest)"
proof -
  have u: "unat (of_nat (length bs) :: 64 word) = length bs"
    using assms by (simp add: unat_of_nat)
  have "ReadFull 8 (EncUint64 (of_nat (length bs)) @ bs @ rest)
      = Inr (EncUint64 (of_nat (length bs)), bs @ rest)"
    by (rule ReadFull_append) (rule length_EncUint64)
  then show ?thesis
    by (simp add: ReadPrefixedBytes_def WritePrefixedBytes_def DecUint64_EncUint64 u ReadFull_append)
qed

lemma ReadPrefixedBytes_Inr:
  assumes "ReadPrefixedBytes bs = Inr (body, rest)"
  shows "bs = WritePrefixedBytes body @ rest"
proof -
  from assms obtain p r where p: "ReadFull 8 bs = Inr (p, r)"
    and b: "ReadFull (unat (DecUint64 p)) r = Inr (body, rest)"
    by (auto simp: ReadPrefixedBytes_def split: sum.splits)
  from ReadFull_Inr [OF p] have bs: "bs = p @ r" and lp: "length p = 8" by simp_all
  from ReadFull_Inr [OF b] have r: "r = body @ rest" and lb: "length body = unat (DecUint64 p)"
    by simp_all
  have "EncUint64 (of_nat (length body)) = p"
    by (simp add: lb EncUint64_DecUint64 [OF lp])
  then show ?thesis by (simp add: WritePrefixedBytes_def bs r)
qed

lemma string_of_bytes_of: "string_of (bytes_of s) = s"
proof -
  have "char_of (unat (of_char c :: byte)) = c" for c
  proof -
    have "(of_char c :: byte) = of_nat (of_char c)"
      by (simp add: of_char_def)
    moreover have "(of_char c :: nat) < 256" by simp
    ultimately have "unat (of_char c :: byte) = of_char c"
      by (simp add: unat_of_nat)
    then show ?thesis by simp
  qed
  then show ?thesis by (simp add: string_of_def bytes_of_def map_idI)
qed

lemma bytes_of_string_of: "bytes_of (string_of bs) = bs"
proof -
  have "of_char (char_of (unat b)) = b" for b :: byte
  proof -
    have "unat b < 256" using unsigned_less [of b, where ?'a = nat] by simp
    then have "(of_char (char_of (unat b)) :: nat) = unat b" by simp
    then have "(of_nat (of_char (char_of (unat b))) :: byte) = of_nat (unat b)" by simp
    then show ?thesis by (simp add: of_char_def)
  qed
  then show ?thesis by (simp add: string_of_def bytes_of_def map_idI)
qed

lemma unmarshalSia_marshalSia:
  assumes "wire_ok k"
  shows "unmarshalSia (marshalSia k @ rest) = Inr (k, rest)"
proof -
  from assms have n: "length (bytes_of (Name k)) < 2 ^ 64" and e: "length (Entropy k) < 2 ^ 64"
    and c: "length (CipherType k) = CipherTypeLen"
    by (simp_all add: wire_ok_def bytes_of_def)
  show ?thesis
    by (simp add: unmarshalSia_def marshalSia_def ReadPrefixedBytes_Write [OF n]
        ReadPrefixedBytes_Write [OF e] ReadFull_append [OF c] string_of_bytes_of)
qed

lemma marshalSia_unmarshalSia:
  assumes "unmarshalSia bs = Inr (k, rest)"
  shows "marshalSia k @ rest = bs"
proof -
  from assms obtain name r1 ct r2 entropy where
    1: "ReadPrefixedBytes bs = Inr (name, r1)" and 2: "ReadFull CipherTypeLen r1 = Inr (ct, r2)"
    and 3: "ReadPrefixedBytes r2 = Inr (entropy, rest)"
    and k: "k = \<lparr>Name = string_of name, CipherType = ct, Entropy = entropy\<rparr>"
    by (auto simp: unmarshalSia_def split: sum.splits)
  from ReadPrefixedBytes_Inr [OF 1] ReadFull_Inr [OF 2] ReadPrefixedBytes_Inr [OF 3]
  show ?thesis by (simp add: marshalSia_def k bytes_of_string_of)
qed

lemma length_encodeURL: "length encodeURL = 64"
  by (simp add: encodeURL_def)

lemma distinct_encodeURL: "distinct encodeURL"
  by (simp add: encodeURL_def)

lemma dec64_enc64: "i < 64 \<Longrightarrow> dec64 (enc64 i) = Some i"
  using map_of_zip_nth [of encodeURL "[0..<64]" i]
  by (simp add: dec64_def enc64_def length_encodeURL distinct_encodeURL)

lemma enc64_in: "i < 64 \<Longrightarrow> enc64 i \<in> set encodeURL"
  by (simp add: enc64_def length_encodeURL)

lemma encodeURL_plain:
  "c \<in> set encodeURL \<Longrightarrow> c \<noteq> CHR ''='' \<and> c \<noteq> CHR 0x0D \<and> c \<noteq> CHR 0x0A"
  by (auto simp: encodeURL_def)

lemma enc64_plain:
  "i < 64 \<Longrightarrow> enc64 i \<noteq> CHR ''='' \<and> enc64 i \<noteq> CHR 0x0D \<and> enc64 i \<noteq> CHR 0x0A"
  using encodeURL_plain [OF enc64_in] .

lemma octets:
  fixes x y z :: nat
  assumes "y < 256" "z < 256"
  shows "x div 4 * 4 + (x mod 4 * 16 + y div 16) div 16 = x"
    and "(x mod 4 * 16 + y div 16) mod 16 * 16 + (y mod 16 * 4 + z div 64) div 4 = y"
    and "(y mod 16 * 4 + z div 64) mod 4 * 64 + z mod 64 = z"
    and "x div 4 * 4 + (x mod 4 * 16) div 16 = x"
    and "(x mod 4 * 16 + y div 16) mod 16 * 16 + (y mod 16 * 4) div 4 = y"
proof -
  have y: "y div 16 < 16" and z: "z div 64 < 4" using assms by simp_all
  show "x div 4 * 4 + (x mod 4 * 16 + y div 16) div 16 = x"
    using y by simp
  show "(x mod 4 * 16 + y div 16) mod 16 * 16 + (y mod 16 * 4 + z div 64) div 4 = y"
    using y z by simp
  show "(y mod 16 * 4 + z div 64) mod 4 * 64 + z mod 64 = z"
    using z by simp
  show "x div 4 * 4 + (x mod 4 * 16) div 16 = x"
    by simp
  show "(x mod 4 * 16 + y div 16) mod 16 * 16 + (y mod 16 * 4) div 4 = y"
    using y by simp
qed

lemma sextets:
  fixes x y z :: nat
  assumes "x < 256" "y < 256" "z < 256"
  shows "x div 4 < 64" "x mod 4 * 16 + y div 16 < 64" "y mod 16 * 4 + z div 64 < 64" "z mod 64 < 64"
    "x mod 4 * 16 < 64" "y mod 16 * 4 < 64"
proof -
  have "x mod 4 < 4" "y div 16 < 16" "y mod 16 < 16" "z div 64 < 4" using assms by simp_all
  then show "x mod 4 * 16 + y div 16 < 64" "y mod 16 * 4 + z div 64 < 64"
    "x mod 4 * 16 < 64" "y mod 16 * 4 < 64" by linarith+
  show "x div 4 < 64" "z mod 64 < 64" using assms by simp_all
qed


lemma byte_less: "unat (b :: byte) < 256"
  using unsigned_less [of b, where ?'a = nat] by simp

lemma dec_quantum_enc:
  "dec_quantum (enc64 (unat a div 4)) (enc64 (unat a mod 4 * 16 + unat b div 16))
      (enc64 (unat b mod 16 * 4 + unat c div 64)) (enc64 (unat c mod 64)) = Some [a, b, c]"
proof -
  note s = sextets [OF byte_less [of a] byte_less [of b] byte_less [of c]]
  note o = octets [OF byte_less [of b] byte_less [of c]]
  have "dec_quantum (enc64 (unat a div 4)) (enc64 (unat a mod 4 * 16 + unat b div 16))
      (enc64 (unat b mod 16 * 4 + unat c div 64)) (enc64 (unat c mod 64))
    = Some [of_nat (unat a div 4 * 4 + (unat a mod 4 * 16 + unat b div 16) div 16),
        of_nat ((unat a mod 4 * 16 + unat b div 16) mod 16 * 16 + (unat b mod 16 * 4 + unat c div 64) div 4),
        of_nat ((unat b mod 16 * 4 + unat c div 64) mod 4 * 64 + unat c mod 64)]"
    by (simp only: dec_quantum_def dec64_enc64 s option.case prod.case)
  also have "\<dots> = Some [a, b, c]"
    by (simp only: o) simp
  finally show ?thesis .
qed

lemma dec_last_enc3:
  "dec_last (enc64 (unat a div 4)) (enc64 (unat a mod 4 * 16 + unat b div 16))
      (enc64 (unat b mod 16 * 4 + unat c div 64)) (enc64 (unat c mod 64)) = Some [a, b, c]"
  using sextets [OF byte_less [of a] byte_less [of b] byte_less [of c]]
  by (simp add: dec_last_def enc64_plain dec_quantum_enc)

lemma dec_last_enc2:
  "dec_last (enc64 (unat a div 4)) (enc64 (unat a mod 4 * 16 + unat b div 16))
      (enc64 (unat b mod 16 * 4)) CHR ''='' = Some [a, b]"
proof -
  note s = sextets [OF byte_less [of a] byte_less [of b] byte_less [of b]]
  note o = octets [OF byte_less [of b] byte_less [of b]]
  have "dec_last (enc64 (unat a div 4)) (enc64 (unat a mod 4 * 16 + unat b div 16))
      (enc64 (unat b mod 16 * 4)) CHR ''=''
    = Some [of_nat (unat a div 4 * 4 + (unat a mod 4 * 16 + unat b div 16) div 16),
        of_nat ((unat a mod 4 * 16 + unat b div 16) mod 16 * 16 + (unat b mod 16 * 4) div 4)]"
    using s by (simp add: dec_last_def enc64_plain dec64_enc64 del: of_nat_add of_nat_mult)
  also have "\<dots> = Some [a, b]"
    by (simp only: o) simp
  finally show ?thesis .
qed

lemma dec_last_enc1:
  "dec_last (enc64 (unat a div 4)) (enc64 (unat a mod 4 * 16)) CHR ''='' CHR ''='' = Some [a]"
proof -
  note s = sextets [OF byte_less [of a] byte_less [of a] byte_less [of a]]
  note o = octets [OF byte_less [of a] byte_less [of a]]
  have "dec_last (enc64 (unat a div 4)) (enc64 (unat a mod 4 * 16)) CHR ''='' CHR ''=''
    = Some [of_nat (unat a div 4 * 4 + (unat a mod 4 * 16) div 16)]"
    using s by (simp add: dec_last_def dec64_enc64 del: of_nat_add of_nat_mult)
  also have "\<dots> = Some [a]"
    by (simp only: o) simp
  finally show ?thesis .
qed

lemma EncodeToString_Nil: "EncodeToString bs = [] \<Longrightarrow> bs = []"
  by (cases bs rule: EncodeToString.cases) simp_all

lemma decode_quanta_Encode: "decode_quanta (EncodeToString bs) = Some bs"
proof (induction bs rule: EncodeToString.induct)
  case 1
  then show ?case by simp
next
  case (2 a)
  then show ?case by (simp add: dec_last_enc1)
next
  case (3 a b)
  then show ?case by (simp add: dec_last_enc2)
next
  case (4 a b c bs)
  show ?case
  proof (cases "EncodeToString bs")
    case Nil
    then have "bs = []" by (rule EncodeToString_Nil)
    then show ?thesis by (simp add: dec_last_enc3)
  next
    case (Cons d ds)
    with 4 show ?thesis by (simp add: dec_quantum_enc)
  qed
qed

lemma EncodeToString_chars: "c \<in> set (EncodeToString bs) \<Longrightarrow> c \<in> set encodeURL \<or> c = CHR ''=''"
proof (induction bs rule: EncodeToString.induct)
  case 1
  then show ?case by simp
next
  case (2 a)
  with sextets [OF byte_less [of a] byte_less [of a] byte_less [of a]] show ?case
    by (auto simp: enc64_in)
next
  case (3 a b)
  with sextets [OF byte_less [of a] byte_less [of b] byte_less [of b]] show ?case
    by (auto simp: enc64_in)
next
  case (4 a b c bs)
  with sextets [OF byte_less [of a] byte_less [of b] byte_less [of c]] show ?case
    by (auto simp: enc64_in)
qed

lemma DecodeString_EncodeToString: "DecodeString (EncodeToString bs) = Inr bs"
proof -
  have "filter (\<lambda>c. c \<noteq> CHR 0x0D \<and> c \<noteq> CHR 0x0A) (EncodeToString bs) = EncodeToString bs"
    using EncodeToString_chars [of _ bs] encodeURL_plain by (auto simp: filter_id_conv)
  then show ?thesis by (simp add: DecodeString_def decode_quanta_Encode)
qed

subsection \<open>The maps after load and after saving\<close>

lemma ids_have_keys_store:
  "ids_have_keys sm \<Longrightarrow>
     ran ((idsByName sm)(name \<mapsto> keyID)) \<subseteq> dom ((keysByID sm)(keyID \<mapsto> sk))"
  by (auto simp: ids_have_keys_def ran_def split: if_splits)

lemma saveKey_ids_have_keys:
  "ids_have_keys sm \<Longrightarrow> ids_have_keys (fst (snd (saveKey H sk sm f flt)))"
proof (cases "ID H sk")
  case (Inl p)
  then show "ids_have_keys sm \<Longrightarrow> ?thesis" by (simp add: saveKey_def)
next
  case (Inr keyID)
  assume "ids_have_keys sm"
  then show ?thesis
    using ids_have_keys_store [of sm "Name sk" keyID sk]
    by (simp add: ids_have_keys_def saveKey_idsByName [OF Inr] saveKey_keysByID [OF Inr])
qed

lemma AddKey_ids_have_keys:
  "ids_have_keys sm \<Longrightarrow> ids_have_keys (fst (snd (AddKey H sk sm f flt)))"
proof -
  assume inv: "ids_have_keys sm"
  from AddKey_cases [of H sk sm f flt]
  have "fst (snd (AddKey H sk sm f flt)) = sm \<or>
        fst (snd (AddKey H sk sm f flt)) = fst (snd (saveKey H sk sm f flt))"
    by (elim disjE) simp_all
  then show ?thesis using inv saveKey_ids_have_keys [OF inv, of H sk f flt]
    by (elim disjE) simp_all
qed

lemma CreateKey_ids_have_keys:
  "ids_have_keys sm \<Longrightarrow> ids_have_keys (fst (snd (CreateKey H fresh name ct sm f flt)))"
proof -
  assume inv: "ids_have_keys sm"
  let ?sk = "\<lparr>Name = name, CipherType = ct, Entropy = fresh\<rparr>"
  from CreateKey_cases [of H fresh name ct sm f flt]
  have "snd (CreateKey H fresh name ct sm f flt) = (sm, f) \<or>
        snd (CreateKey H fresh name ct sm f flt) = snd (saveKey H ?sk sm f flt)"
  proof (elim disjE)
    assume "CreateKey H fresh name ct sm f flt =
       (case saveKey H ?sk sm f flt of
          (Some err, sm', f') \<Rightarrow> (Inl err, sm', f')
        | (None, sm', f') \<Rightarrow> (Inr ?sk, sm', f'))"
    from CreateKey_saved_state [OF this] show ?thesis by simp
  qed simp_all
  then show ?thesis using inv saveKey_ids_have_keys [OF inv, of H ?sk f flt]
    by (elim disjE) simp_all
qed

lemma loadKeys_ids_have_keys:
  "loadKeys H flt f i sm n = Inr sm' \<Longrightarrow> ids_have_keys sm \<Longrightarrow> ids_have_keys sm'"
proof (induction H flt f i sm n rule: loadKeys.induct)
  case (1 H flt f i sm n)
  show ?case
  proof (cases "int n < sint (fileLen sm)")
    case False
    with "1.prems" show ?thesis by (subst (asm) loadKeys.simps) (simp split: if_splits)
  next
    case True
    with "1.prems"(1) obtain sk rest keyID where
      dec: "unmarshalSia (drop n f) = Inr (sk, rest)" and kid: "ID H sk = Inr keyID"
      and nf: "flt \<noteq> OffsetFault i"
      and rec: "loadKeys H flt f (Suc i)
          (sm\<lparr>idsByName := (idsByName sm)(Name sk \<mapsto> keyID),
              keysByID := (keysByID sm)(keyID \<mapsto> sk)\<rparr>) (length f - length rest) = Inr sm'"
      by (subst (asm) loadKeys.simps) (auto split: sum.splits if_splits)
    have "ids_have_keys (sm\<lparr>idsByName := (idsByName sm)(Name sk \<mapsto> keyID),
              keysByID := (keysByID sm)(keyID \<mapsto> sk)\<rparr>)"
      using ids_have_keys_store [OF "1.prems"(2), of "Name sk" keyID sk]
      by (simp add: ids_have_keys_def)
    with "1.IH" [OF True dec refl kid nf rec] show ?thesis .
  qed
qed

lemma loadHeader_maps:
  "loadHeader lib sm f flt = Inr sm1 \<Longrightarrow> idsByName sm1 = idsByName sm \<and> keysByID sm1 = keysByID sm"
  by (auto simp: loadHeader_def Let_def split: if_splits sum.splits prod.splits)

lemma load_ids_have_keys:
  assumes "fst (load H lib sm f flt) = Inr sm'" and "ids_have_keys sm"
  shows "ids_have_keys sm'"
proof (cases "length f < headerLen")
  case True
  with assms show ?thesis
    by (auto simp: load_def Let_def ids_have_keys_def split: if_splits prod.splits option.splits)
next
  case False
  with assms(1) obtain sm1 where h: "loadHeader lib sm f flt = Inr sm1"
    and k: "loadKeys H flt f 0 sm1 headerLen = Inr sm'"
    by (auto simp: load_def split: if_splits sum.splits)
  from loadHeader_maps [OF h] assms(2) have "ids_have_keys sm1"
    by (simp add: ids_have_keys_def)
  with k show ?thesis by (rule loadKeys_ids_have_keys)
qed

lemma reachable_ids_have_keys: "reachable H lib sm \<Longrightarrow> ids_have_keys sm"
proof (induction rule: reachable.induct)
  case (reach_load f flt sm)
  from reach_load have "fst (load H lib initialManager f flt) = Inr sm"
    by (simp add: NewSkykeyManager_def split: if_splits)
  moreover have "ids_have_keys initialManager"
    by (simp add: ids_have_keys_def initialManager_def)
  ultimately show ?case by (rule load_ids_have_keys)
next
  case (reach_CreateKey sm fresh name ct f flt)
  then show ?case by (simp add: CreateKey_ids_have_keys)
next
  case (reach_AddKey sm sk f flt)
  then show ?case by (simp add: AddKey_ids_have_keys)
qed


subsection \<open>Loading\<close>

lemma loadKeys_not_header_error:
  "loadKeys H flt f i sm n \<noteq> Inl (AddContext e ''Error loading header'')"
proof (induction H flt f i sm n rule: loadKeys.induct)
  case (1 H flt f i sm n)
  show ?case
    using "1.IH"
    by (subst loadKeys.simps) (auto split: sum.splits dest: ID_Inl)
qed

lemma loadHeader_fields:
  assumes "headerLen \<le> length f"
  shows "loadHeader lib sm f NoFault =
     (if take SpecifierLen f \<noteq> SkykeyFileMagic then Inl (New ''Expected skykey file magic'')
      else
        (case MarshalText lib (take SpecifierLen (drop SpecifierLen f)) of
           Inl e \<Rightarrow> Inl e
         | Inr text \<Rightarrow>
             if \<not> IsVersion lib (filter (\<lambda>c. c \<noteq> CHR 0x00) text)
             then Inl (New ''skykey file header missing version'')
             else if VersionCmp lib skykeyVersionString (filter (\<lambda>c. c \<noteq> CHR 0x00) text) < 0
             then Inl (New ''Unknown skykey version'')
             else Inr (sm\<lparr>version := take SpecifierLen (drop SpecifierLen f),
                          fileLen := DecUint64 (take 8 (drop (SpecifierLen + SpecifierLen) f))\<rparr>)))"
proof -
  define m where "m = take SpecifierLen f"
  define v where "v = take SpecifierLen (drop SpecifierLen f)"
  define l where "l = take 8 (drop (SpecifierLen + SpecifierLen) f)"
  have len: "length m = SpecifierLen" "length v = SpecifierLen" "length l = 8"
    using assms by (simp_all add: m_def v_def l_def headerLen_def SpecifierLen_def)
  have hdr: "take headerLen f = m @ v @ l"
    unfolding m_def v_def l_def headerLen_def by (simp only: take_add append_assoc)
  have 1: "ReadFull SpecifierLen (m @ v @ l) = Inr (m, v @ l)"
    using len(1) by (rule ReadFull_append)
  have 2: "ReadFull SpecifierLen (v @ l) = Inr (v, l)"
    using len(2) by (rule ReadFull_append)
  have 3: "ReadFull 8 l = Inr (l, [])"
    using ReadFull_append [OF len(3), of "[]"] by simp
  show ?thesis
    unfolding loadHeader_def hdr m_def [symmetric] v_def [symmetric] l_def [symmetric]
    by (simp add: 1 2 3 Let_def split: sum.splits)
qed

lemma load_header_present:
  assumes "headerLen \<le> length f"
  shows "fst (load H lib sm f NoFault) =
     (case loadHeader lib sm f NoFault of
        Inl err \<Rightarrow> Inl (AddContext err ''Error loading header'')
      | Inr sm1 \<Rightarrow> loadKeys H NoFault f 0 sm1 headerLen)"
  using assms by (simp add: load_def split: sum.splits)

lemma loadKeys_done:
  "int n = sint (fileLen sm) \<Longrightarrow> loadKeys H flt f i sm n = Inr sm"
  by (subst loadKeys.simps) simp

lemma loadKeys_beyond:
  "sint (fileLen sm) < int n \<Longrightarrow>
     loadKeys H flt f i sm n = Inl (New ''Expected to read entire specified skykey file length'')"
  by (subst loadKeys.simps) simp

lemma loadKeys_decode_error:
  "int n < sint (fileLen sm) \<Longrightarrow> unmarshalSia (drop n f) = Inl e \<Longrightarrow>
     loadKeys H flt f i sm n = Inl (AddContext e ''Error unmarshaling Skykey'')"
  by (subst loadKeys.simps) simp

lemma loadKeys_panic:
  "int n < sint (fileLen sm) \<Longrightarrow> unmarshalSia (drop n f) = Inr (sk, rest) \<Longrightarrow>
     ID H sk = Inl p \<Longrightarrow> loadKeys H flt f i sm n = Inl SliceBoundsPanic"
  by (subst loadKeys.simps) (simp add: ID_Inl)

lemma loadKeys_step:
  "int n < sint (fileLen sm) \<Longrightarrow> unmarshalSia (drop n f) = Inr (sk, rest) \<Longrightarrow>
     ID H sk = Inr keyID \<Longrightarrow>
     loadKeys H NoFault f i sm n =
       loadKeys H NoFault f (Suc i)
         (sm\<lparr>idsByName := (idsByName sm)(Name sk \<mapsto> keyID),
             keysByID := (keysByID sm)(keyID \<mapsto> sk)\<rparr>) (length f - length rest)"
  by (subst loadKeys.simps) simp

lemma fileLen_storeKeys: "fileLen (storeKeys H sm ks) = fileLen sm"
  by (induction ks arbitrary: sm) (simp_all split: sum.splits)

lemma loadKeys_records:
  assumes "drop n f = concat (map marshalSia ks) @ tail" and "n \<le> length f"
    and "list_all wire_ok ks"
    and "ks \<noteq> [] \<longrightarrow> int (n + length (concat (map marshalSia (butlast ks)))) < sint (fileLen sm)"
  shows "loadKeys H NoFault f i sm n =
     (if list_all (\<lambda>k. ID H k \<noteq> Inl SliceBoundsPanic) ks
      then loadKeys H NoFault f (i + length ks) (storeKeys H sm ks)
             (n + length (concat (map marshalSia ks)))
      else Inl SliceBoundsPanic)"
  using assms
proof (induction ks arbitrary: n sm i)
  case Nil
  then show ?case by simp
next
  case (Cons k ks)
  let ?rest = "concat (map marshalSia ks) @ tail"
  let ?n' = "n + length (marshalSia k)"
  from Cons.prems(1) have dn: "drop n f = marshalSia k @ ?rest" by simp
  from Cons.prems(3) have wk: "wire_ok k" and wks: "list_all wire_ok ks" by simp_all
  have dec: "unmarshalSia (drop n f) = Inr (k, ?rest)"
    unfolding dn using wk by (rule unmarshalSia_marshalSia)
  have lt: "int n < sint (fileLen sm)"
    using Cons.prems(4) by (cases ks) auto
  have "length (drop n f) = length (marshalSia k) + length ?rest"
    unfolding dn by simp
  with Cons.prems(2) have off: "length f - length ?rest = ?n'" and le: "?n' \<le> length f"
    by simp_all
  have dn': "drop ?n' f = ?rest"
    using dn by (metis add.commute append_eq_conv_conj drop_drop)
  show ?case
  proof (cases "ID H k")
    case (Inl p)
    then have "ID H k = Inl SliceBoundsPanic" by (simp add: ID_Inl)
    moreover have "loadKeys H NoFault f i sm n = Inl SliceBoundsPanic"
      using lt dec Inl by (rule loadKeys_panic)
    ultimately show ?thesis by simp
  next
    case (Inr keyID)
    let ?sm' = "sm\<lparr>idsByName := (idsByName sm)(Name k \<mapsto> keyID),
             keysByID := (keysByID sm)(keyID \<mapsto> k)\<rparr>"
    have step: "loadKeys H NoFault f i sm n = loadKeys H NoFault f (Suc i) ?sm' ?n'"
      using loadKeys_step [OF lt dec Inr, of i] by (simp only: off)
    have cond: "ks \<noteq> [] \<longrightarrow>
        int (?n' + length (concat (map marshalSia (butlast ks)))) < sint (fileLen ?sm')"
      using Cons.prems(4) by (auto simp: add.assoc)
    from Cons.IH [OF dn' le wks cond, of "Suc i"] step Inr
    show ?thesis by (simp add: add.assoc)
  qed
qed

lemma NewSkykeyManager_load:
  "fst (NewSkykeyManager H lib f NoFault) = fst (load H lib initialManager f NoFault)"
  by (simp add: NewSkykeyManager_def)

lemma length_NewSpecifier:
  "length name \<le> SpecifierLen \<Longrightarrow> length (NewSpecifier name) = SpecifierLen"
  by (simp add: NewSpecifier_def bytes_of_def)

lemma length_SkykeyFileMagic: "length SkykeyFileMagic = SpecifierLen"
  by (simp add: SkykeyFileMagic_def length_NewSpecifier SpecifierLen_def)

lemma text_NewSpecifier:
  assumes "CHR 0x00 \<notin> set s"
  shows "filter (\<lambda>c. c \<noteq> CHR 0x00) (string_of (NewSpecifier s)) = s"
proof -
  have "char_of (0 :: nat) = CHR 0x00"
    by code_simp
  then have "string_of (NewSpecifier s) = string_of (bytes_of s) @ replicate (SpecifierLen - length s) (CHR 0x00)"
    by (simp add: NewSpecifier_def string_of_def)
  then show ?thesis using assms
    by (auto simp: string_of_bytes_of filter_id_conv)
qed

subsection \<open>The concrete inputs evaluated\<close>

lemma fresh_sint: "0 \<le> sint (fileLen freshManager)"
  by (simp add: freshManager_def headerLen_def SpecifierLen_def)

lemma ID_exampleKey: "ID exampleHash exampleKey = Inr (replicate 16 1)"
  by (simp add: ID_def exampleKey_def exampleEntropy_def KeySize_def SkykeyIDLen_def exampleHash_def)

lemma ID_betaKey: "ID exampleHash betaKey = Inr (replicate 16 2)"
  by (simp add: ID_def betaKey_def KeySize_def SkykeyIDLen_def exampleHash_def)

lemma plain_not_chacha: "NewSpecifier ''plain'' \<noteq> TypeXChaCha20"
  by (simp add: NewSpecifier_def TypeXChaCha20_def bytes_of_def SpecifierLen_def)

lemma ID_plainKey: "ID exampleHash plainKey = Inr (replicate 16 0)"
  by (simp add: ID_def plainKey_def exampleEntropy_def SkykeyIDLen_def exampleHash_def plain_not_chacha)

lemma ID_longKey: "ID exampleHash longKey = Inr (replicate 16 1)"
  by (simp add: ID_def longKey_def exampleEntropy_def KeySize_def SkykeyIDLen_def exampleHash_def)

lemma alpha_ids: "idsByName alphaManager ''alpha'' = Some (replicate 16 1)"
proof -
  have "AddKey exampleHash exampleKey freshManager freshFile NoFault
          = saveKey exampleHash exampleKey freshManager freshFile NoFault"
    by (rule AddKey_fresh [OF ID_exampleKey]) (simp_all add: freshManager_def)
  then have "idsByName alphaManager = (idsByName freshManager)(Name exampleKey \<mapsto> replicate 16 1)"
    by (simp add: alphaManager_def saveKey_idsByName [OF ID_exampleKey])
  then show ?thesis
    by (simp add: exampleKey_def)
qed

lemma alpha_keys: "keysByID alphaManager = [replicate 16 1 \<mapsto> exampleKey]"
proof -
  have "AddKey exampleHash exampleKey freshManager freshFile NoFault
          = saveKey exampleHash exampleKey freshManager freshFile NoFault"
    by (rule AddKey_fresh [OF ID_exampleKey]) (simp_all add: freshManager_def)
  then show ?thesis
    by (simp add: alphaManager_def saveKey_keysByID [OF ID_exampleKey] freshManager_def)
qed

lemma NewSkykeyManager_empty:
  "NewSkykeyManager H lib [] NoFault = (Inr freshManager, freshFile)"
  by (simp add: NewSkykeyManager_def load_def headerLen_def SpecifierLen_def saveHeader_def
      initialManager_def freshManager_def freshFile_def WriteAt_def Let_def)

lemma reachable_alphaManager: "reachable exampleHash exampleLib alphaManager"
proof -
  have "fst (NewSkykeyManager exampleHash exampleLib [] NoFault) = Inr freshManager"
    by (simp add: NewSkykeyManager_empty)
  then have "reachable exampleHash exampleLib freshManager"
    by (rule reach_load)
  then show ?thesis
    unfolding alphaManager_def by (rule reach_AddKey)
qed

lemma valid_wire_ok:
  assumes "length (Name k) \<le> MaxKeyNameLen" and "CipherType k = TypeXChaCha20"
    and "length (Entropy k) = KeySize + XNonceSize"
  shows "wire_ok k"
  using assms
  by (simp add: wire_ok_def MaxKeyNameLen_def TypeXChaCha20_def NewSpecifier_def bytes_of_def
      SpecifierLen_def CipherTypeLen_def KeySize_def XNonceSize_def)

lemma wire_ok_exampleKey: "wire_ok exampleKey"
  by (simp add: wire_ok_def exampleKey_def exampleEntropy_def TypeXChaCha20_def NewSpecifier_def
      bytes_of_def SpecifierLen_def CipherTypeLen_def)

lemma headerFile_fields:
  assumes "length v \<le> SpecifierLen"
  shows "length (headerFile v n) = headerLen"
    and "take SpecifierLen (headerFile v n) = SkykeyFileMagic"
    and "take SpecifierLen (drop SpecifierLen (headerFile v n)) = NewSpecifier v"
    and "take 8 (drop (SpecifierLen + SpecifierLen) (headerFile v n)) = EncUint64 (of_nat n)"
  using length_NewSpecifier [OF assms]
  by (simp_all add: headerFile_def headerLen_def length_SkykeyFileMagic length_EncUint64)

lemma headerFile_rest_fields:
  assumes "length v \<le> SpecifierLen"
  shows "headerLen \<le> length (headerFile v n @ rest)"
    and "take SpecifierLen (headerFile v n @ rest) = SkykeyFileMagic"
    and "take SpecifierLen (drop SpecifierLen (headerFile v n @ rest)) = NewSpecifier v"
    and "take 8 (drop (SpecifierLen + SpecifierLen) (headerFile v n @ rest)) = EncUint64 (of_nat n)"
    and "drop headerLen (headerFile v n @ rest) = rest"
  using length_NewSpecifier [OF assms]
  by (simp_all add: headerFile_def headerLen_def length_SkykeyFileMagic length_EncUint64)

lemma example_versions:
  "\<not> IsVersion exampleLib ''1.4.x''"
  "IsVersion exampleLib ''9.9.9''" "VersionCmp exampleLib skykeyVersionString ''9.9.9'' < 0"
  "IsVersion exampleLib ''1.4.4''" "0 \<le> VersionCmp exampleLib skykeyVersionString ''1.4.4''"
  "IsVersion exampleLib ''1.3.12''" "0 \<le> VersionCmp exampleLib skykeyVersionString ''1.3.12''"
  by code_simp+

lemma loadHeader_current_version:
  "loadHeader exampleLib sm (headerFile ''1.4.4'' n @ rest) NoFault =
     Inr (sm\<lparr>version := skykeyVersion, fileLen := of_nat n\<rparr>)"
proof -
  have short: "length ''1.4.4'' \<le> SpecifierLen" by (simp add: SpecifierLen_def)
  note hf = headerFile_rest_fields [OF short, of n rest]
  have mt: "MarshalText exampleLib x = Inr (string_of x)" for x
    by (simp add: exampleLib_def)
  have strip: "filter (\<lambda>c. c \<noteq> CHR 0x00) (string_of (NewSpecifier ''1.4.4'')) = ''1.4.4''"
    by (simp add: text_NewSpecifier)
  show ?thesis
    unfolding loadHeader_fields [OF hf(1)] hf(2) hf(3) hf(4) mt
    using example_versions(4,5)
    by (simp add: strip DecUint64_EncUint64 skykeyVersion_def skykeyVersionString_def)
qed

lemma length_marshalSia_exampleKey: "length (marshalSia exampleKey) = 93"
  by (simp add: marshalSia_def WritePrefixedBytes_def length_EncUint64 exampleKey_def
      exampleEntropy_def bytes_of_def TypeXChaCha20_def NewSpecifier_def SpecifierLen_def)

subsection \<open>Claims about CreateKey and AddKey\<close>

text \<open>
  C6. \<^verbatim>\<open>CreateKey\<close> returns the name-too-long error when the name has more than 128
  bytes, else the unsupported-cipher error when the cipher type is not XChaCha20, else the
  name-exists error when the name is already in \<open>idsByName\<close>; in these cases nothing
  changes. It never returns the ID-exists error: with a free name it saves the key whether
  or not \<open>keysByID\<close> holds its ID already. A key it returns has the given name, the given
  cipher type and the entropy drawn.
\<close>

theorem CreateKey_errors:
  "(length name > MaxKeyNameLen \<longrightarrow>
      CreateKey H fresh name ct sm f flt = (Inl errSkykeyNameToolong, sm, f)) \<and>
   (length name \<le> MaxKeyNameLen \<and> ct \<noteq> TypeXChaCha20 \<longrightarrow>
      CreateKey H fresh name ct sm f flt = (Inl errUnsupportedSkykeyCipherType, sm, f)) \<and>
   (length name \<le> MaxKeyNameLen \<and> ct = TypeXChaCha20 \<and> idsByName sm name \<noteq> None \<longrightarrow>
      CreateKey H fresh name ct sm f flt = (Inl ErrSkykeyWithNameAlreadyExists, sm, f)) \<and>
   fst (CreateKey H fresh name ct sm f flt) \<noteq> Inl ErrSkykeyWithIDAlreadyExists \<and>
   (length name \<le> MaxKeyNameLen \<and> ct = TypeXChaCha20 \<and> idsByName sm name = None \<and>
    KeySize \<le> length fresh \<and> 0 \<le> sint (fileLen sm) \<longrightarrow>
      fst (CreateKey H fresh name ct sm f NoFault) = Inr \<lparr>Name = name, CipherType = ct, Entropy = fresh\<rparr>) \<and>
   (\<forall>k. fst (CreateKey H fresh name ct sm f flt) = Inr k \<longrightarrow>
      k = \<lparr>Name = name, CipherType = ct, Entropy = fresh\<rparr>)"
proof -
  let ?sk = "\<lparr>Name = name, CipherType = ct, Entropy = fresh\<rparr>"
  have noID: "fst (CreateKey H fresh name ct sm f flt) \<noteq> Inl ErrSkykeyWithIDAlreadyExists"
    using saveKey_not_New [of H ?sk sm f flt "''Skykey ID already exists.''"]
    by (auto simp: CreateKey_def error_defs Let_def split: prod.splits option.splits)
  have ok: "fst (CreateKey H fresh name ct sm f NoFault) = Inr ?sk"
    if "length name \<le> MaxKeyNameLen" "ct = TypeXChaCha20" "idsByName sm name = None"
       "KeySize \<le> length fresh" "0 \<le> sint (fileLen sm)"
  proof -
    have "\<exists>keyID. ID H ?sk = Inr keyID" using that by (simp add: ID_def)
    then obtain keyID where "ID H ?sk = Inr keyID" ..
    then have "fst (saveKey H ?sk sm f NoFault) = None"
      using that(5) by (rule saveKey_NoFault)
    then show ?thesis using that
      by (auto simp: CreateKey_def SupportsCipherType_def Let_def split: prod.splits option.splits)
  qed
  have ret: "\<forall>k. fst (CreateKey H fresh name ct sm f flt) = Inr k \<longrightarrow> k = ?sk"
    by (auto simp: CreateKey_def Let_def split: prod.splits option.splits if_splits)
  show ?thesis using noID ok ret
    by (simp add: CreateKey_def SupportsCipherType_def)
qed

theorem CreateKey_errors_witness:
  "CreateKey exampleHash exampleEntropy (replicate 129 CHR ''a'') TypeXChaCha20 freshManager freshFile NoFault
     = (Inl errSkykeyNameToolong, freshManager, freshFile) \<and>
   CreateKey exampleHash exampleEntropy ''beta'' (NewSpecifier ''plain'') freshManager freshFile NoFault
     = (Inl errUnsupportedSkykeyCipherType, freshManager, freshFile) \<and>
   CreateKey exampleHash exampleEntropy ''alpha'' TypeXChaCha20 alphaManager freshFile NoFault
     = (Inl ErrSkykeyWithNameAlreadyExists, alphaManager, freshFile) \<and>
   fst (CreateKey exampleHash exampleEntropy ''alpha'' TypeXChaCha20 freshManager freshFile NoFault)
     = Inr exampleKey"
proof -
  have 1: "length (replicate 129 CHR ''a'') > MaxKeyNameLen" by (simp add: MaxKeyNameLen_def)
  have 2: "length ''beta'' \<le> MaxKeyNameLen \<and> NewSpecifier ''plain'' \<noteq> TypeXChaCha20"
    by (simp add: MaxKeyNameLen_def plain_not_chacha)
  have 3: "length ''alpha'' \<le> MaxKeyNameLen \<and> idsByName alphaManager ''alpha'' \<noteq> None"
    by (simp add: MaxKeyNameLen_def alpha_ids)
  have 4: "idsByName freshManager ''alpha'' = None \<and> KeySize \<le> length exampleEntropy"
    by (simp add: freshManager_def exampleEntropy_def KeySize_def)
  have a: "CreateKey exampleHash exampleEntropy (replicate 129 CHR ''a'') TypeXChaCha20 freshManager freshFile NoFault
     = (Inl errSkykeyNameToolong, freshManager, freshFile)"
    using CreateKey_errors [of "replicate 129 CHR ''a''" exampleHash exampleEntropy TypeXChaCha20 freshManager freshFile NoFault] 1
    by blast
  have b: "CreateKey exampleHash exampleEntropy ''beta'' (NewSpecifier ''plain'') freshManager freshFile NoFault
     = (Inl errUnsupportedSkykeyCipherType, freshManager, freshFile)"
    using CreateKey_errors [of "''beta''" exampleHash exampleEntropy "NewSpecifier ''plain''" freshManager freshFile NoFault] 2
    by blast
  have c: "CreateKey exampleHash exampleEntropy ''alpha'' TypeXChaCha20 alphaManager freshFile NoFault
     = (Inl ErrSkykeyWithNameAlreadyExists, alphaManager, freshFile)"
    using CreateKey_errors [of "''alpha''" exampleHash exampleEntropy TypeXChaCha20 alphaManager freshFile NoFault] 3
    by blast
  have d: "fst (CreateKey exampleHash exampleEntropy ''alpha'' TypeXChaCha20 freshManager freshFile NoFault)
     = Inr \<lparr>Name = ''alpha'', CipherType = TypeXChaCha20, Entropy = exampleEntropy\<rparr>"
    using CreateKey_errors [of "''alpha''" exampleHash exampleEntropy TypeXChaCha20 freshManager freshFile NoFault] 3 4 fresh_sint
    by blast
  show ?thesis using a b c d by (simp only: exampleKey_def simp_thms)
qed

text \<open>
  C7. When \<open>keysByID\<close> holds the key's ID, \<^verbatim>\<open>AddKey\<close> returns the ID-exists error;
  when it does not and \<open>idsByName\<close> holds the key's name, the name-exists error; when both
  collide, the ID-exists error.
\<close>

theorem AddKey_collisions:
  assumes "ID H sk = Inr keyID"
  shows "(keysByID sm keyID \<noteq> None \<longrightarrow>
            AddKey H sk sm f flt = (Some ErrSkykeyWithIDAlreadyExists, sm, f)) \<and>
         (keysByID sm keyID = None \<and> idsByName sm (Name sk) \<noteq> None \<longrightarrow>
            AddKey H sk sm f flt = (Some ErrSkykeyWithNameAlreadyExists, sm, f)) \<and>
         (keysByID sm keyID \<noteq> None \<and> idsByName sm (Name sk) \<noteq> None \<longrightarrow>
            fst (AddKey H sk sm f flt) = Some ErrSkykeyWithIDAlreadyExists)"
  using assms by (simp add: AddKey_def)

theorem AddKey_collisions_witness:
  "AddKey exampleHash exampleKey alphaManager freshFile NoFault
     = (Some ErrSkykeyWithIDAlreadyExists, alphaManager, freshFile) \<and>
   AddKey exampleHash betaKey alphaManager freshFile NoFault
     = (Some ErrSkykeyWithNameAlreadyExists, alphaManager, freshFile) \<and>
   idsByName alphaManager (Name exampleKey) \<noteq> None"
proof -
  have 1: "keysByID alphaManager (replicate 16 1) \<noteq> None" by (simp add: alpha_keys)
  have 2: "keysByID alphaManager (replicate 16 2) = None" by (simp add: alpha_keys)
  have 3: "idsByName alphaManager (Name betaKey) \<noteq> None" by (simp add: alpha_ids betaKey_def)
  have 4: "idsByName alphaManager (Name exampleKey) \<noteq> None" by (simp add: alpha_ids exampleKey_def)
  show ?thesis
    using AddKey_collisions [OF ID_exampleKey, of alphaManager freshFile NoFault]
      AddKey_collisions [OF ID_betaKey, of alphaManager freshFile NoFault] 1 2 3 4
    by blast
qed

text \<open>
  C10. \<^verbatim>\<open>AddKey\<close> does not look at the length of the name: a key whose name has more
  than 128 bytes, with an ID and a name not yet stored, is saved and found under its name.
\<close>

theorem AddKey_no_name_limit:
  assumes "length (Name sk) > MaxKeyNameLen" and "ID H sk = Inr keyID"
    and "keysByID sm keyID = None" and "idsByName sm (Name sk) = None"
    and "0 \<le> sint (fileLen sm)"
  shows "fst (AddKey H sk sm f NoFault) = None \<and>
         KeyByName (fst (snd (AddKey H sk sm f NoFault))) (Name sk) = Inr sk"
proof -
  have eq: "AddKey H sk sm f NoFault = saveKey H sk sm f NoFault"
    using assms(2-4) by (rule AddKey_fresh)
  have "fst (saveKey H sk sm f NoFault) = None"
    using assms(2,5) by (rule saveKey_NoFault)
  moreover have "KeyByName (fst (snd (saveKey H sk sm f NoFault))) (Name sk) = Inr sk"
    by (simp add: KeyByName_def saveKey_idsByName [OF assms(2)] saveKey_keysByID [OF assms(2)])
  ultimately show ?thesis by (simp add: eq)
qed

theorem AddKey_no_name_limit_witness:
  "length (Name longKey) = 129 \<and> CipherType longKey = TypeXChaCha20 \<and>
   fst (AddKey exampleHash longKey freshManager freshFile NoFault) = None \<and>
   KeyByName (fst (snd (AddKey exampleHash longKey freshManager freshFile NoFault))) (Name longKey)
     = Inr longKey"
proof -
  have 1: "length (Name longKey) > MaxKeyNameLen" by (simp add: longKey_def MaxKeyNameLen_def)
  have 2: "keysByID freshManager (replicate 16 1) = None" by (simp add: freshManager_def)
  have 3: "idsByName freshManager (Name longKey) = None" by (simp add: freshManager_def)
  have 4: "length (Name longKey) = 129 \<and> CipherType longKey = TypeXChaCha20" by (simp add: longKey_def)
  show ?thesis
    using AddKey_no_name_limit [OF 1 ID_longKey 2 3 fresh_sint, of freshFile] 4 by blast
qed

text \<open>
  C2. \<^verbatim>\<open>AddKey\<close> does not look at the cipher type either: on the fresh manager it saves
  a key whose cipher type \<^verbatim>\<open>SupportsCipherType\<close> refuses, where \<^verbatim>\<open>CreateKey\<close> returns
  the unsupported-cipher error for the same cipher type.
\<close>

theorem AddKey_stores_unsupported_cipher:
  "\<not> SupportsCipherType (CipherType plainKey) \<and>
   fst (AddKey exampleHash plainKey freshManager freshFile NoFault) = None \<and>
   KeyByName (fst (snd (AddKey exampleHash plainKey freshManager freshFile NoFault))) ''plain''
     = Inr plainKey"
proof -
  have eq: "AddKey exampleHash plainKey freshManager freshFile NoFault
      = saveKey exampleHash plainKey freshManager freshFile NoFault"
    by (rule AddKey_fresh [OF ID_plainKey]) (simp_all add: freshManager_def)
  have 1: "\<not> SupportsCipherType (CipherType plainKey)"
    by (simp add: SupportsCipherType_def plainKey_def plain_not_chacha)
  have 2: "fst (saveKey exampleHash plainKey freshManager freshFile NoFault) = None"
    using ID_plainKey fresh_sint by (rule saveKey_NoFault)
  have 3: "Name plainKey = ''plain''" by (simp add: plainKey_def)
  have "KeyByName (fst (snd (saveKey exampleHash plainKey freshManager freshFile NoFault))) (Name plainKey)
     = Inr plainKey"
    by (simp add: KeyByName_def saveKey_idsByName [OF ID_plainKey] saveKey_keysByID [OF ID_plainKey])
  then show ?thesis using 1 2 by (simp add: eq 3)
qed

text \<open>
  C1, as stated, fails: when the write of the record fails, \<^verbatim>\<open>AddKey\<close> returns the
  error and the name is in \<open>idsByName\<close> all the same.
\<close>

theorem failed_append_keeps_key_counterexample:
  "fst (AddKey exampleHash exampleKey freshManager freshFile (WriteFault 0))
     = Some (AddContext IOError ''Error writing skykey to file'') \<and>
   idsByName freshManager ''alpha'' = None \<and>
   idsByName (fst (snd (AddKey exampleHash exampleKey freshManager freshFile (WriteFault 0)))) ''alpha''
     = Some (replicate 16 1)"
proof -
  have eq: "AddKey exampleHash exampleKey freshManager freshFile (WriteFault 0)
      = saveKey exampleHash exampleKey freshManager freshFile (WriteFault 0)"
    by (rule AddKey_fresh [OF ID_exampleKey]) (simp_all add: freshManager_def)
  have 1: "fst (saveKey exampleHash exampleKey freshManager freshFile (WriteFault 0))
     = Some (AddContext IOError ''Error writing skykey to file'')"
    using fresh_sint by (simp add: saveKey_def ID_exampleKey Let_def)
  have 2: "idsByName (fst (snd (saveKey exampleHash exampleKey freshManager freshFile (WriteFault 0)))) (Name exampleKey)
     = Some (replicate 16 1)"
    by (simp add: saveKey_idsByName [OF ID_exampleKey])
  have 3: "Name exampleKey = ''alpha''" by (simp add: exampleKey_def)
  have 4: "idsByName freshManager ''alpha'' = None" by (simp add: freshManager_def)
  show ?thesis using 1 2 4 by (simp add: eq 3)
qed

text \<open>
  C1, amended. When \<^verbatim>\<open>CreateKey\<close> or \<^verbatim>\<open>AddKey\<close> returns one of the errors of its own
  checks (name too long, unsupported cipher, name exists, ID exists), the manager and the
  file are as before the call. When it returns any other error and the key has an ID, the
  error comes from a disk step of \<^verbatim>\<open>saveKey\<close>, and the two maps are the maps before the
  call with the new key stored: the insertion precedes the disk steps and is not undone.
\<close>

theorem mutation_error_state:
  "(fst (CreateKey H fresh name ct sm f flt) \<in>
      {Inl errSkykeyNameToolong, Inl errUnsupportedSkykeyCipherType, Inl ErrSkykeyWithNameAlreadyExists}
    \<longrightarrow> snd (CreateKey H fresh name ct sm f flt) = (sm, f)) \<and>
   (fst (AddKey H sk sm f flt) \<in>
      {Some ErrSkykeyWithIDAlreadyExists, Some ErrSkykeyWithNameAlreadyExists}
    \<longrightarrow> snd (AddKey H sk sm f flt) = (sm, f)) \<and>
   (\<forall>e keyID. fst (CreateKey H fresh name ct sm f flt) = Inl e \<and>
       e \<notin> {errSkykeyNameToolong, errUnsupportedSkykeyCipherType, ErrSkykeyWithNameAlreadyExists} \<and>
       ID H \<lparr>Name = name, CipherType = ct, Entropy = fresh\<rparr> = Inr keyID
    \<longrightarrow> idsByName (fst (snd (CreateKey H fresh name ct sm f flt))) = (idsByName sm)(name \<mapsto> keyID) \<and>
        keysByID (fst (snd (CreateKey H fresh name ct sm f flt)))
          = (keysByID sm)(keyID \<mapsto> \<lparr>Name = name, CipherType = ct, Entropy = fresh\<rparr>)) \<and>
   (\<forall>e keyID. fst (AddKey H sk sm f flt) = Some e \<and>
       e \<notin> {ErrSkykeyWithIDAlreadyExists, ErrSkykeyWithNameAlreadyExists} \<and>
       ID H sk = Inr keyID
    \<longrightarrow> idsByName (fst (snd (AddKey H sk sm f flt))) = (idsByName sm)(Name sk \<mapsto> keyID) \<and>
        keysByID (fst (snd (AddKey H sk sm f flt))) = (keysByID sm)(keyID \<mapsto> sk))"
proof -
  let ?sk = "\<lparr>Name = name, CipherType = ct, Entropy = fresh\<rparr>"
  note nn = saveKey_not_New
  have c1: "fst (CreateKey H fresh name ct sm f flt) \<in>
      {Inl errSkykeyNameToolong, Inl errUnsupportedSkykeyCipherType, Inl ErrSkykeyWithNameAlreadyExists}
    \<longrightarrow> snd (CreateKey H fresh name ct sm f flt) = (sm, f)"
    using CreateKey_cases [of H fresh name ct sm f flt]
      CreateKey_saved_state [of H fresh name ct sm f flt ?sk]
      nn [of H ?sk sm f flt]
    by (auto simp: error_defs)
  have a1: "fst (AddKey H sk sm f flt) \<in>
      {Some ErrSkykeyWithIDAlreadyExists, Some ErrSkykeyWithNameAlreadyExists}
    \<longrightarrow> snd (AddKey H sk sm f flt) = (sm, f)"
    using AddKey_cases [of H sk sm f flt] nn [of H sk sm f flt]
    by (auto simp: error_defs)
  have c2: "idsByName (fst (snd (CreateKey H fresh name ct sm f flt))) = (idsByName sm)(name \<mapsto> keyID) \<and>
        keysByID (fst (snd (CreateKey H fresh name ct sm f flt))) = (keysByID sm)(keyID \<mapsto> ?sk)"
    if "fst (CreateKey H fresh name ct sm f flt) = Inl e"
      "e \<notin> {errSkykeyNameToolong, errUnsupportedSkykeyCipherType, ErrSkykeyWithNameAlreadyExists}"
      "ID H ?sk = Inr keyID" for e keyID
  proof -
    have "snd (CreateKey H fresh name ct sm f flt) = snd (saveKey H ?sk sm f flt)"
      using CreateKey_cases [of H fresh name ct sm f flt]
        CreateKey_saved_state [of H fresh name ct sm f flt ?sk] that(1,2)
      by auto
    then show ?thesis
      using saveKey_idsByName [OF that(3), of sm f flt] saveKey_keysByID [OF that(3), of sm f flt]
      by simp
  qed
  have a2: "idsByName (fst (snd (AddKey H sk sm f flt))) = (idsByName sm)(Name sk \<mapsto> keyID) \<and>
        keysByID (fst (snd (AddKey H sk sm f flt))) = (keysByID sm)(keyID \<mapsto> sk)"
    if "fst (AddKey H sk sm f flt) = Some e"
      "e \<notin> {ErrSkykeyWithIDAlreadyExists, ErrSkykeyWithNameAlreadyExists}"
      "ID H sk = Inr keyID" for e keyID
  proof -
    have "AddKey H sk sm f flt = saveKey H sk sm f flt"
      using that by (auto simp: AddKey_def split: if_splits)
    then show ?thesis
      using saveKey_idsByName [OF that(3), of sm f flt] saveKey_keysByID [OF that(3), of sm f flt]
      by simp
  qed
  show ?thesis using c1 a1 c2 a2 by blast
qed

theorem mutation_error_state_witness:
  "snd (CreateKey exampleHash exampleEntropy (replicate 129 CHR ''a'') TypeXChaCha20 freshManager
          freshFile NoFault) = (freshManager, freshFile) \<and>
   snd (AddKey exampleHash exampleKey alphaManager freshFile NoFault) = (alphaManager, freshFile) \<and>
   keysByID (fst (snd (CreateKey exampleHash exampleEntropy ''alpha'' TypeXChaCha20 freshManager
          freshFile (WriteFault 0)))) = (keysByID freshManager)(replicate 16 1 \<mapsto> exampleKey) \<and>
   idsByName (fst (snd (AddKey exampleHash exampleKey freshManager freshFile (WriteFault 0))))
     = (idsByName freshManager)(''alpha'' \<mapsto> replicate 16 1)"
proof -
  let ?long = "replicate 129 CHR ''a''"
  let ?wf = "AddContext IOError ''Error writing skykey to file''"
  have c1: "fst (CreateKey exampleHash exampleEntropy ?long TypeXChaCha20 freshManager freshFile NoFault)
      = Inl errSkykeyNameToolong"
    by (simp add: CreateKey_too_long MaxKeyNameLen_def)
  have a1: "fst (AddKey exampleHash exampleKey alphaManager freshFile NoFault)
      = Some ErrSkykeyWithIDAlreadyExists"
    by (simp add: AddKey_ID_exists [OF ID_exampleKey] alpha_keys)
  have sk: "fst (saveKey exampleHash exampleKey freshManager freshFile (WriteFault 0)) = Some ?wf"
    using fresh_sint by (simp add: saveKey_def ID_exampleKey Let_def)
  have a2: "fst (AddKey exampleHash exampleKey freshManager freshFile (WriteFault 0)) = Some ?wf"
    using sk by (simp add: AddKey_fresh [OF ID_exampleKey] freshManager_def)
  have c2: "fst (CreateKey exampleHash exampleEntropy ''alpha'' TypeXChaCha20 freshManager freshFile
      (WriteFault 0)) = Inl ?wf"
    using sk by (auto simp: CreateKey_def SupportsCipherType_def MaxKeyNameLen_def freshManager_def
        exampleKey_def Let_def split: prod.splits option.splits)
  have ne: "?wf \<notin> {errSkykeyNameToolong, errUnsupportedSkykeyCipherType, ErrSkykeyWithNameAlreadyExists}"
    "?wf \<notin> {ErrSkykeyWithIDAlreadyExists, ErrSkykeyWithNameAlreadyExists}"
    by (simp_all add: error_defs)
  have idk: "ID exampleHash \<lparr>Name = ''alpha'', CipherType = TypeXChaCha20, Entropy = exampleEntropy\<rparr>
      = Inr (replicate 16 1)"
    using ID_exampleKey by (simp add: exampleKey_def)
  have nm: "Name exampleKey = ''alpha''"
    by (simp add: exampleKey_def)
  have ek: "\<lparr>Name = ''alpha'', CipherType = TypeXChaCha20, Entropy = exampleEntropy\<rparr> = exampleKey"
    by (simp add: exampleKey_def)
  show ?thesis
    using mutation_error_state [of exampleHash exampleEntropy ?long TypeXChaCha20 freshManager
        freshFile NoFault exampleKey] c1
      mutation_error_state [of exampleHash exampleEntropy ?long TypeXChaCha20 alphaManager
        freshFile NoFault exampleKey] a1
      mutation_error_state [of exampleHash exampleEntropy "''alpha''" TypeXChaCha20 freshManager
        freshFile "WriteFault 0" exampleKey] c2 a2 ne idk ID_exampleKey
    unfolding nm ek
    by blast
qed

subsection \<open>Claims about the two maps, the codec and the subkeys\<close>

text \<open>
  C9. In every manager state reached by \<^verbatim>\<open>NewSkykeyManager\<close>, \<^verbatim>\<open>CreateKey\<close> and
  \<^verbatim>\<open>AddKey\<close>, every ID in the range of \<open>idsByName\<close> is a key of \<open>keysByID\<close>, and so
  \<^verbatim>\<open>KeyByName\<close> returns the no-such-ID error for no name.
\<close>

theorem reachable_dual_map_consistency:
  assumes "reachable H lib sm"
  shows "ran (idsByName sm) \<subseteq> dom (keysByID sm) \<and>
         (\<forall>name. KeyByName sm name \<noteq> Inl errNoSkykeysWithThatID)"
proof -
  have inv: "ran (idsByName sm) \<subseteq> dom (keysByID sm)"
    using reachable_ids_have_keys [OF assms] by (simp add: ids_have_keys_def)
  have "KeyByName sm name \<noteq> Inl errNoSkykeysWithThatID" for name
  proof (cases "idsByName sm name")
    case None
    then show ?thesis by (simp add: KeyByName_def error_defs)
  next
    case (Some keyID)
    then have "keyID \<in> ran (idsByName sm)" by (auto simp: ran_def)
    with inv obtain key where "keysByID sm keyID = Some key" by auto
    with Some show ?thesis by (simp add: KeyByName_def)
  qed
  with inv show ?thesis by simp
qed

theorem reachable_dual_map_consistency_witness:
  "reachable exampleHash exampleLib alphaManager \<and>
   idsByName alphaManager ''alpha'' = Some (replicate 16 1) \<and>
   ran (idsByName alphaManager) \<subseteq> dom (keysByID alphaManager) \<and>
   (\<forall>name. KeyByName alphaManager name \<noteq> Inl errNoSkykeysWithThatID)"
  using reachable_dual_map_consistency [OF reachable_alphaManager] reachable_alphaManager alpha_ids
  by simp

text \<open>
  C8. For a key that fits the wire form, decoding its wire form gives the key back with
  nothing left over, and \<^verbatim>\<open>FromString\<close> of its \<^verbatim>\<open>ToString\<close> gives the key back. Whenever
  the decoder reads a key off a byte list, encoding that key gives the bytes it consumed.
  By \<open>valid_wire_ok\<close> every XChaCha20 key with a name of at most 128 bytes and 56 bytes
  of entropy fits the wire form.
\<close>

theorem codec_round_trip:
  assumes "wire_ok k"
  shows "unmarshalSia (marshalSia k) = Inr (k, []) \<and>
         FromString (ToString k) = Inr k \<and>
         (\<forall>bs k' rest. unmarshalSia bs = Inr (k', rest) \<longrightarrow> marshalSia k' @ rest = bs)"
proof -
  have 1: "unmarshalSia (marshalSia k) = Inr (k, [])"
    using unmarshalSia_marshalSia [OF assms, of "[]"] by simp
  then have 2: "FromString (ToString k) = Inr k"
    by (simp add: FromString_def ToString_def DecodeString_EncodeToString)
  from 1 2 marshalSia_unmarshalSia show ?thesis by blast
qed

theorem codec_round_trip_witness:
  "unmarshalSia (marshalSia exampleKey) = Inr (exampleKey, []) \<and>
   FromString (ToString exampleKey) = Inr exampleKey \<and>
   marshalSia exampleKey @ [] = marshalSia exampleKey"
  using codec_round_trip [OF wire_ok_exampleKey] by blast

text \<open>
  C3, as stated, fails: with a cipher check that accepts it, \<^verbatim>\<open>SubkeyWithNonce\<close> succeeds
  on a key of another cipher type than XChaCha20, and \<^verbatim>\<open>ID\<close> hashes the whole entropy of
  such a key, nonce included. Under \<open>exampleHash\<close> the two identifiers differ.
\<close>

theorem subkey_ID_other_cipher_counterexample:
  "length (replicate 24 (255 :: byte)) = XNonceSize \<and>
   SubkeyWithNonce acceptAll plainKey (replicate 24 255)
     = Inr (plainKey\<lparr>Entropy := replicate 32 1 @ replicate 24 255\<rparr>) \<and>
   ID exampleHash plainKey = Inr (replicate 16 0) \<and>
   ID exampleHash (plainKey\<lparr>Entropy := replicate 32 1 @ replicate 24 255\<rparr>) = Inr (replicate 16 255)"
proof -
  have 3: "SubkeyWithNonce acceptAll plainKey (replicate 24 255)
     = Inr (plainKey\<lparr>Entropy := replicate 32 1 @ replicate 24 255\<rparr>)"
    by (simp add: SubkeyWithNonce_def plainKey_def exampleEntropy_def acceptAll_def
        XNonceSize_def KeySize_def)
  have 4: "ID exampleHash (plainKey\<lparr>Entropy := replicate 32 1 @ replicate 24 255\<rparr>) = Inr (replicate 16 255)"
    by (simp add: ID_def plainKey_def SkykeyIDLen_def exampleHash_def plain_not_chacha)
  from 3 4 ID_plainKey show ?thesis by (simp add: XNonceSize_def)
qed

text \<open>
  C3, amended. For a key of cipher type XChaCha20 and a nonce of 24 bytes, when
  \<^verbatim>\<open>SubkeyWithNonce\<close> succeeds, the subkey has the identifier of the key: the hash of the
  specifier, the cipher type and the first 32 bytes of the entropy.
\<close>

theorem subkey_ID_stable:
  assumes "CipherType m = TypeXChaCha20" and "length n = XNonceSize"
    and "SubkeyWithNonce NewSiaKey m n = Inr sub"
  shows "ID H sub = ID H m \<and>
         ID H m = Inr (take SkykeyIDLen (H SkykeySpecifier TypeXChaCha20 (take KeySize (Entropy m))))"
  using assms
  by (auto simp: SubkeyWithNonce_def ID_def Let_def KeySize_def XNonceSize_def split: if_splits)

theorem subkey_ID_stable_witness:
  "SubkeyWithNonce acceptAll exampleKey (replicate 24 255)
     = Inr (exampleKey\<lparr>Entropy := replicate 32 1 @ replicate 24 255\<rparr>) \<and>
   ID exampleHash (exampleKey\<lparr>Entropy := replicate 32 1 @ replicate 24 255\<rparr>) = Inr (replicate 16 1) \<and>
   ID exampleHash exampleKey = Inr (replicate 16 1)"
proof -
  have 1: "CipherType exampleKey = TypeXChaCha20" by (simp add: exampleKey_def)
  have 2: "length (replicate 24 (255 :: byte)) = XNonceSize" by (simp add: XNonceSize_def)
  have 3: "SubkeyWithNonce acceptAll exampleKey (replicate 24 255)
     = Inr (exampleKey\<lparr>Entropy := replicate 32 1 @ replicate 24 255\<rparr>)"
    by (simp add: SubkeyWithNonce_def exampleKey_def exampleEntropy_def acceptAll_def
        XNonceSize_def KeySize_def)
  from subkey_ID_stable [OF 1 2 3, of exampleHash] 3 ID_exampleKey show ?thesis by simp
qed

subsection \<open>Claims about load\<close>

text \<open>
  C5. On a file that holds a header with the right magic, \<^verbatim>\<open>load\<close> strips the NULs
  from the text of the version specifier. When the stripped text is not a version, load
  fails with the missing-version error. Load fails with the unknown-version error exactly
  when the stripped text is a version and \<^verbatim>\<open>VersionCmp\<close> of the code's version
  \<open>1.4.4\<close> with it is negative, that is, the file's version is strictly newer. Every
  version for which the comparison is zero or positive is accepted: the header is read
  and load goes on to the records. By \<open>text_NewSpecifier\<close> the stripped text of a
  specifier made of a NUL-free string is that string, so that stripping every NUL and
  stripping the padding agree on it.
\<close>

theorem version_negotiation:
  assumes "headerLen \<le> length f" and "take SpecifierLen f = SkykeyFileMagic"
    and "MarshalText lib (take SpecifierLen (drop SpecifierLen f)) = Inr text"
  shows
    "(\<not> IsVersion lib (filter (\<lambda>c. c \<noteq> CHR 0x00) text) \<longrightarrow>
        fst (load H lib sm f NoFault) =
          Inl (AddContext (New ''skykey file header missing version'') ''Error loading header'')) \<and>
     ((fst (load H lib sm f NoFault) =
          Inl (AddContext (New ''Unknown skykey version'') ''Error loading header'')) =
      (IsVersion lib (filter (\<lambda>c. c \<noteq> CHR 0x00) text) \<and>
       VersionCmp lib skykeyVersionString (filter (\<lambda>c. c \<noteq> CHR 0x00) text) < 0)) \<and>
     (IsVersion lib (filter (\<lambda>c. c \<noteq> CHR 0x00) text) \<and>
      0 \<le> VersionCmp lib skykeyVersionString (filter (\<lambda>c. c \<noteq> CHR 0x00) text) \<longrightarrow>
        loadHeader lib sm f NoFault =
          Inr (sm\<lparr>version := take SpecifierLen (drop SpecifierLen f),
                  fileLen := DecUint64 (take 8 (drop (SpecifierLen + SpecifierLen) f))\<rparr>) \<and>
        fst (load H lib sm f NoFault) =
          loadKeys H NoFault f 0
            (sm\<lparr>version := take SpecifierLen (drop SpecifierLen f),
                fileLen := DecUint64 (take 8 (drop (SpecifierLen + SpecifierLen) f))\<rparr>) headerLen)"
  using loadKeys_not_header_error [of H NoFault f 0 _ headerLen "New ''Unknown skykey version''"]
  by (auto simp: load_header_present [OF assms(1)] loadHeader_fields [OF assms(1)] assms(2,3))

theorem version_negotiation_witness:
  "fst (load exampleHash exampleLib initialManager (headerFile ''1.4.x'' 40) NoFault) =
     Inl (AddContext (New ''skykey file header missing version'') ''Error loading header'') \<and>
   fst (load exampleHash exampleLib initialManager (headerFile ''9.9.9'' 40) NoFault) =
     Inl (AddContext (New ''Unknown skykey version'') ''Error loading header'') \<and>
   fst (load exampleHash exampleLib initialManager (headerFile ''1.4.4'' 40) NoFault) =
     Inr freshManager \<and>
   fst (load exampleHash exampleLib initialManager (headerFile ''1.3.12'' 40) NoFault) =
     Inr (freshManager\<lparr>version := NewSpecifier ''1.3.12''\<rparr>)"
proof -
  have short: "length ''1.4.x'' \<le> SpecifierLen" "length ''9.9.9'' \<le> SpecifierLen"
    "length ''1.4.4'' \<le> SpecifierLen" "length ''1.3.12'' \<le> SpecifierLen"
    by (simp_all add: SpecifierLen_def)
  have mt: "MarshalText exampleLib (NewSpecifier v) = Inr (string_of (NewSpecifier v))" for v
    by (simp add: exampleLib_def)
  have strip: "filter (\<lambda>c. c \<noteq> CHR 0x00) (string_of (NewSpecifier ''1.4.x'')) = ''1.4.x''"
    "filter (\<lambda>c. c \<noteq> CHR 0x00) (string_of (NewSpecifier ''9.9.9'')) = ''9.9.9''"
    "filter (\<lambda>c. c \<noteq> CHR 0x00) (string_of (NewSpecifier ''1.4.4'')) = ''1.4.4''"
    "filter (\<lambda>c. c \<noteq> CHR 0x00) (string_of (NewSpecifier ''1.3.12'')) = ''1.3.12''"
    by (simp_all add: text_NewSpecifier)
  have len40: "DecUint64 (EncUint64 40) = (40 :: 64 word)"
    by (simp add: DecUint64_EncUint64)
  have fm: "initialManager\<lparr>version := v, fileLen := 40\<rparr> = freshManager\<lparr>version := v\<rparr>" for v
    by (simp add: initialManager_def freshManager_def headerLen_def SpecifierLen_def)
  have fm': "freshManager\<lparr>version := NewSpecifier ''1.4.4''\<rparr> = freshManager"
    by (simp add: freshManager_def skykeyVersion_def skykeyVersionString_def)
  have fin': "loadKeys exampleHash NoFault f 0 (freshManager\<lparr>version := v\<rparr>) headerLen
      = Inr (freshManager\<lparr>version := v\<rparr>)"
    "loadKeys exampleHash NoFault f 0 freshManager headerLen = Inr freshManager" for f v
    by (rule loadKeys_done, simp add: freshManager_def headerLen_def SpecifierLen_def)+
  note vn = version_negotiation [where H = exampleHash and lib = exampleLib and sm = initialManager]
  have a: "fst (load exampleHash exampleLib initialManager (headerFile ''1.4.x'' 40) NoFault) =
     Inl (AddContext (New ''skykey file header missing version'') ''Error loading header'')"
    using vn [of "headerFile ''1.4.x'' 40" "string_of (NewSpecifier ''1.4.x'')"]
      example_versions(1)
    by (simp add: headerFile_fields [OF short(1)] mt strip)
  have b: "fst (load exampleHash exampleLib initialManager (headerFile ''9.9.9'' 40) NoFault) =
     Inl (AddContext (New ''Unknown skykey version'') ''Error loading header'')"
    using vn [of "headerFile ''9.9.9'' 40" "string_of (NewSpecifier ''9.9.9'')"]
      example_versions(2,3)
    by (simp add: headerFile_fields [OF short(2)] mt strip)
  have c: "fst (load exampleHash exampleLib initialManager (headerFile ''1.4.4'' 40) NoFault) =
     Inr freshManager"
    using vn [of "headerFile ''1.4.4'' 40" "string_of (NewSpecifier ''1.4.4'')"]
      example_versions(4,5)
    by (simp add: headerFile_fields [OF short(3)] mt strip len40 fm fm' fin')
  have d: "fst (load exampleHash exampleLib initialManager (headerFile ''1.3.12'' 40) NoFault) =
     Inr (freshManager\<lparr>version := NewSpecifier ''1.3.12''\<rparr>)"
    using vn [of "headerFile ''1.3.12'' 40" "string_of (NewSpecifier ''1.3.12'')"]
      example_versions(6,7)
    by (simp add: headerFile_fields [OF short(4)] mt strip len40 fm fin')
  from a b c d show ?thesis by simp
qed

text \<open>
  C4. The file holds a header that \<^verbatim>\<open>loadHeader\<close> accepts, then the wire forms of the
  keys \<open>ks\<close>, then \<open>tail\<close>, and the last of the keys starts before the file length of
  the header, so that the loop decodes every one of them, starting at \<open>headerLen\<close>. Let
  \<open>n\<close> be the offset after them. When \<open>n\<close> is before the file length and no record can
  be decoded from \<open>tail\<close>, load fails with the error of the decoder; when \<open>n\<close> is beyond
  the file length (it points into the last record), load fails with the error of the
  final check; in both cases \<^verbatim>\<open>NewSkykeyManager\<close> returns no manager. When \<open>n\<close> is the
  file length, it returns the manager that holds the keys. The one other outcome is the
  panic of \<^verbatim>\<open>ID\<close> on a record that is an XChaCha20 key with less than 32 bytes of
  entropy, which also ends the load without a manager.
\<close>

theorem load_record_mismatch:
  assumes "headerLen \<le> length f"
    and "loadHeader lib initialManager f NoFault = Inr sm1"
    and "drop headerLen f = concat (map marshalSia ks) @ tail"
    and "list_all wire_ok ks"
    and "ks \<noteq> [] \<longrightarrow>
           int (headerLen + length (concat (map marshalSia (butlast ks)))) < sint (fileLen sm1)"
  shows
    "(int (headerLen + length (concat (map marshalSia ks))) < sint (fileLen sm1) \<and>
      unmarshalSia tail = Inl e \<longrightarrow>
        fst (NewSkykeyManager H lib f NoFault) =
          Inl (if list_all (\<lambda>k. ID H k \<noteq> Inl SliceBoundsPanic) ks
               then AddContext e ''Error unmarshaling Skykey'' else SliceBoundsPanic)) \<and>
     (sint (fileLen sm1) < int (headerLen + length (concat (map marshalSia ks))) \<longrightarrow>
        fst (NewSkykeyManager H lib f NoFault) =
          Inl (if list_all (\<lambda>k. ID H k \<noteq> Inl SliceBoundsPanic) ks
               then New ''Expected to read entire specified skykey file length''
               else SliceBoundsPanic)) \<and>
     (int (headerLen + length (concat (map marshalSia ks))) = sint (fileLen sm1) \<longrightarrow>
        fst (NewSkykeyManager H lib f NoFault) =
          (if list_all (\<lambda>k. ID H k \<noteq> Inl SliceBoundsPanic) ks
           then Inr (storeKeys H sm1 ks) else Inl SliceBoundsPanic))"
proof -
  let ?n = "headerLen + length (concat (map marshalSia ks))"
  let ?end = "loadKeys H NoFault f (0 + length ks) (storeKeys H sm1 ks) ?n"
  have ld: "fst (NewSkykeyManager H lib f NoFault) = loadKeys H NoFault f 0 sm1 headerLen"
    by (simp add: NewSkykeyManager_load load_header_present [OF assms(1)] assms(2))
  have run: "loadKeys H NoFault f 0 sm1 headerLen =
     (if list_all (\<lambda>k. ID H k \<noteq> Inl SliceBoundsPanic) ks then ?end else Inl SliceBoundsPanic)"
    using assms(3) assms(1) assms(4) assms(5) by (rule loadKeys_records)
  have tl: "drop ?n f = tail"
    using assms(3) by (metis add.commute append_eq_conv_conj drop_drop)
  have 1: "?end = Inl (AddContext e ''Error unmarshaling Skykey'')"
    if "int ?n < sint (fileLen sm1)" "unmarshalSia tail = Inl e"
    using that by (intro loadKeys_decode_error) (simp_all add: fileLen_storeKeys tl)
  have 2: "?end = Inl (New ''Expected to read entire specified skykey file length'')"
    if "sint (fileLen sm1) < int ?n"
    using that by (intro loadKeys_beyond) (simp add: fileLen_storeKeys)
  have 3: "?end = Inr (storeKeys H sm1 ks)" if "int ?n = sint (fileLen sm1)"
    using that by (intro loadKeys_done) (simp add: fileLen_storeKeys)
  show ?thesis
    unfolding ld run using 1 2 3 by simp
qed

theorem load_record_mismatch_witness:
  "fst (NewSkykeyManager exampleHash exampleLib (headerFile ''1.4.4'' 43 @ [1, 2, 3]) NoFault) =
     Inl (AddContext DecodeError ''Error unmarshaling Skykey'') \<and>
   fst (NewSkykeyManager exampleHash exampleLib (headerFile ''1.4.4'' 50 @ marshalSia exampleKey)
          NoFault) =
     Inl (New ''Expected to read entire specified skykey file length'') \<and>
   fst (NewSkykeyManager exampleHash exampleLib (headerFile ''1.4.4'' 133 @ marshalSia exampleKey)
          NoFault) =
     Inr (freshManager\<lparr>idsByName := [''alpha'' \<mapsto> replicate 16 1],
            keysByID := [replicate 16 1 \<mapsto> exampleKey], fileLen := 133\<rparr>)"
proof -
  have short: "length ''1.4.4'' \<le> SpecifierLen" by (simp add: SpecifierLen_def)
  note hf = headerFile_rest_fields [OF short]
  have hdr: "loadHeader exampleLib initialManager (headerFile ''1.4.4'' n @ rest) NoFault =
      Inr (freshManager\<lparr>fileLen := of_nat n\<rparr>)" for n rest
    using loadHeader_current_version [of initialManager n rest]
    by (simp add: initialManager_def freshManager_def)
  have garbage: "unmarshalSia [1, 2, 3] = Inl DecodeError"
    by (simp add: unmarshalSia_def ReadPrefixedBytes_def ReadFull_def)
  have ids: "list_all (\<lambda>k. ID exampleHash k \<noteq> Inl SliceBoundsPanic) [exampleKey]"
    by (simp add: ID_exampleKey)
  have wf: "list_all wire_ok [exampleKey]" "list_all wire_ok []"
    by (simp_all add: wire_ok_exampleKey)
  have dr0: "drop headerLen (headerFile ''1.4.4'' n @ [1, 2, 3]) = concat (map marshalSia []) @ [1, 2, 3]"
    for n unfolding hf(5) by simp
  have dr1: "drop headerLen (headerFile ''1.4.4'' n @ marshalSia exampleKey)
      = concat (map marshalSia [exampleKey]) @ []"
    for n unfolding hf(5) by simp
  have c0: "[] \<noteq> [] \<longrightarrow> int (headerLen + length (concat (map marshalSia (butlast []))))
      < sint (fileLen (freshManager\<lparr>fileLen := of_nat n\<rparr>))" for n
    by simp
  have c1: "[exampleKey] \<noteq> [] \<longrightarrow>
      int (headerLen + length (concat (map marshalSia (butlast [exampleKey]))))
      < sint (fileLen (freshManager\<lparr>fileLen := of_nat n\<rparr>))" if "n = 50 \<or> n = 133" for n
    using that by (auto simp: headerLen_def SpecifierLen_def)
  have a: "fst (NewSkykeyManager exampleHash exampleLib (headerFile ''1.4.4'' 43 @ [1, 2, 3]) NoFault) =
     Inl (AddContext DecodeError ''Error unmarshaling Skykey'')"
    using load_record_mismatch [where e = DecodeError and H = exampleHash,
        OF hf(1) hdr [of 43 "[1, 2, 3]"] dr0 [of 43] wf(2) c0 [of 43]] garbage
    by (simp add: headerLen_def SpecifierLen_def)
  have b: "fst (NewSkykeyManager exampleHash exampleLib (headerFile ''1.4.4'' 50 @ marshalSia exampleKey)
          NoFault) = Inl (New ''Expected to read entire specified skykey file length'')"
    using load_record_mismatch [where e = DecodeError and H = exampleHash,
        OF hf(1) hdr [of 50 "marshalSia exampleKey"] dr1 [of 50] wf(1) c1 [of 50]] ids
    by (simp add: headerLen_def SpecifierLen_def length_marshalSia_exampleKey)
  have st: "storeKeys exampleHash (freshManager\<lparr>fileLen := 133\<rparr>) [exampleKey] =
      freshManager\<lparr>idsByName := [''alpha'' \<mapsto> replicate 16 1],
            keysByID := [replicate 16 1 \<mapsto> exampleKey], fileLen := 133\<rparr>"
    by (simp add: ID_exampleKey freshManager_def) (simp add: exampleKey_def)
  have c: "fst (NewSkykeyManager exampleHash exampleLib (headerFile ''1.4.4'' 133 @ marshalSia exampleKey)
          NoFault) = Inr (storeKeys exampleHash (freshManager\<lparr>fileLen := 133\<rparr>) [exampleKey])"
    using load_record_mismatch [where e = DecodeError and H = exampleHash,
        OF hf(1) hdr [of 133 "marshalSia exampleKey"] dr1 [of 133] wf(1) c1 [of 133]] ids
    by (simp add: headerLen_def SpecifierLen_def length_marshalSia_exampleKey)
  from a b c show ?thesis by (simp only: st simp_thms)
qed

end
